theory Spec2Isabelle
  imports Main
begin

section \<open>Python exceptions\<close>

text \<open>
  The exceptions the two modules can meet. \<open>CollaboratorError\<close> stands for whatever the
  calendar client raises (credential, network and HTTP failures).
\<close>

datatype py_exception =
    OverflowError
  | ValueError
  | TypeError
  | KeyError
  | JSONDecodeError
  | CollaboratorError

section \<open>calendar\_tools.py: the availability calculator\<close>

subsection \<open>datetime and timedelta\<close>

text \<open>
  A naive \<open>datetime\<close> is the number of microseconds since \<open>datetime.min\<close>
  (0001-01-01 00:00:00); \<open>datetime.max\<close> is 9999-12-31 23:59:59.999999, the last
  microsecond of day number 3652058. A \<open>timedelta\<close> is a number of microseconds.
  Python raises \<open>OverflowError\<close> when a \<open>timedelta\<close> has more than 999999999 days in
  magnitude and when \<open>datetime + timedelta\<close> leaves the years 1 to 9999.
\<close>

type_synonym datetime = int
type_synonym timedelta = int

definition MAX_DATETIME :: datetime where
  "MAX_DATETIME = 3652059 * 86400000000 - 1"

definition MAX_DELTA_DAYS :: int where
  "MAX_DELTA_DAYS = 999999999"

definition timedelta_minutes :: "int \<Rightarrow> py_exception + timedelta" where
  "timedelta_minutes m =
     (if - MAX_DELTA_DAYS \<le> m div 1440 \<and> m div 1440 \<le> MAX_DELTA_DAYS
      then Inr (m * 60000000) else Inl OverflowError)"

definition datetime_add :: "datetime \<Rightarrow> timedelta \<Rightarrow> py_exception + datetime" where
  "datetime_add t delta =
     (if 0 \<le> t + delta \<and> t + delta \<le> MAX_DATETIME then Inr (t + delta)
      else Inl OverflowError)"

text \<open>\<open>datetime.combine(day, time(hour, minute))\<close>, the day given as days since 0001-01-01.\<close>

definition combine :: "nat \<Rightarrow> int \<Rightarrow> int \<Rightarrow> datetime" where
  "combine day hour minute = int day * 86400000000 + hour * 3600000000 + minute * 60000000"

subsection \<open>find\_available\_slots\<close>

text \<open>
  The inner \<open>for\<close> loop over \<open>busy_slots\<close>: \<open>is_free\<close> starts \<open>True\<close> and the first
  overlapping busy interval sets it to \<open>False\<close> and leaves the loop.
\<close>

fun is_free :: "datetime \<Rightarrow> datetime \<Rightarrow> (datetime \<times> datetime) list \<Rightarrow> bool" where
  "is_free slot_start slot_end [] = True"
| "is_free slot_start slot_end ((busy_start, busy_end) # rest) =
     (if max slot_start busy_start < min slot_end busy_end then False
      else is_free slot_start slot_end rest)"

text \<open>
  The \<open>while\<close> loop. Its condition builds \<open>timedelta(minutes=duration_minutes)\<close> and adds
  it to \<open>slot_start\<close>; both can raise. A free slot is appended, then \<open>slot_start\<close> moves
  on by 30 minutes. The model keeps \<open>slot_start\<close> itself for each appended entry; the
  source stores three \<open>strftime\<close> renderings of it.
\<close>

function scan_slots ::
  "int \<Rightarrow> datetime \<Rightarrow> (datetime \<times> datetime) list \<Rightarrow> datetime \<Rightarrow> datetime list
     \<Rightarrow> py_exception + datetime list" where
  "scan_slots duration_minutes time_max busy_slots slot_start available_slots =
     (case timedelta_minutes duration_minutes of
        Inl e \<Rightarrow> Inl e
      | Inr delta \<Rightarrow>
         (case datetime_add slot_start delta of
            Inl e \<Rightarrow> Inl e
          | Inr slot_end \<Rightarrow>
              if slot_end \<le> time_max then
                (case datetime_add slot_start (30 * 60000000) of
                   Inl e \<Rightarrow> Inl e
                 | Inr next_start \<Rightarrow>
                     scan_slots duration_minutes time_max busy_slots next_start
                       (if is_free slot_start slot_end busy_slots
                        then available_slots @ [slot_start] else available_slots))
              else Inr available_slots))"
  by pat_completeness auto
termination
  by (relation "measure (\<lambda>(d, tmax, busy, s, acc). nat (tmax - d * 60000000 - s + 1))")
     (auto simp: timedelta_minutes_def datetime_add_def split: if_splits)

declare scan_slots.simps [simp del]

text \<open>
  The three outcomes of the tool, named by the \<open>status\<close> field of the JSON it returns.
  \<open>Success\<close> carries \<open>available_slots[:6]\<close>.
\<close>

datatype slots_result = Success "datetime list" | No_slots | Error py_exception

text \<open>
  The calendar client: \<open>get_calendar_service()\<close> either raises or gives a service, and
  the service, asked for the events between \<open>time_min\<close> and \<open>time_max\<close>, either raises
  (in the request or in parsing an event's timestamps) or gives \<open>busy_slots\<close>.
  The argument \<open>day\<close> is what \<open>strptime(date_str, "%Y-%m-%d").date()\<close> yields, as days
  since 0001-01-01, and \<open>None\<close> when \<open>strptime\<close> raises \<open>ValueError\<close>.
\<close>

type_synonym calendar_service =
  "datetime \<Rightarrow> datetime \<Rightarrow> py_exception + (datetime \<times> datetime) list"

definition find_available_slots ::
  "(py_exception + calendar_service) \<Rightarrow> int \<Rightarrow> nat option \<Rightarrow> slots_result" where
  "find_available_slots get_calendar_service duration_minutes day =
     (case get_calendar_service of
        Inl e \<Rightarrow> Error e
      | Inr service \<Rightarrow>
         (case day of
            None \<Rightarrow> Error ValueError
          | Some d \<Rightarrow>
              (let time_min = combine d 9 0; time_max = combine d 17 0 in
               case service time_min time_max of
                 Inl e \<Rightarrow> Error e
               | Inr busy_slots \<Rightarrow>
                  (case scan_slots duration_minutes time_max busy_slots time_min [] of
                     Inl e \<Rightarrow> Error e
                   | Inr available_slots \<Rightarrow>
                       if available_slots = [] then No_slots
                       else Success (take 6 available_slots)))))"

text \<open>A date that \<open>strptime\<close> can yield: a day of the years 1 to 9999.\<close>

definition valid_day :: "nat \<Rightarrow> bool" where
  "valid_day d = (d < 3652059)"

subsection \<open>The cursor positions of the scan\<close>

text \<open>
  The positions the cursor takes while \<open>cursor + delta \<le> time_max\<close>, in the order
  the loop visits them.
\<close>

function cursor_positions :: "timedelta \<Rightarrow> datetime \<Rightarrow> datetime \<Rightarrow> datetime list" where
  "cursor_positions delta time_max cursor =
     (if cursor + delta \<le> time_max
      then cursor # cursor_positions delta time_max (cursor + 30 * 60000000) else [])"
  by pat_completeness auto
termination
  by (relation "measure (\<lambda>(delta, tmax, c). nat (tmax - delta - c + 1))") auto

declare cursor_positions.simps [simp del]

definition accepted_positions ::
  "int \<Rightarrow> datetime \<Rightarrow> (datetime \<times> datetime) list \<Rightarrow> datetime \<Rightarrow> datetime list" where
  "accepted_positions duration_minutes time_max busy cursor =
     filter (\<lambda>c. is_free c (c + duration_minutes * 60000000) busy)
       (cursor_positions (duration_minutes * 60000000) time_max cursor)"

subsection \<open>The specification's slot search\<close>

text \<open>
  The overlap test of the specification's interval model, and the search as the
  specification words it: the cursor advances in 30-minute steps while
  \<open>cursor + duration \<le> close\<close>, a candidate is accepted iff it overlaps no busy
  interval, and enumeration stops once \<open>limit\<close> candidates are collected or the
  cursor exhausts the window. It is compared with the source's loop below.
\<close>

definition overlaps :: "datetime \<times> datetime \<Rightarrow> datetime \<times> datetime \<Rightarrow> bool" where
  "overlaps a b = (max (fst a) (fst b) < min (snd a) (snd b))"

function find_slots_spec ::
  "nat \<Rightarrow> timedelta \<Rightarrow> datetime \<Rightarrow> (datetime \<times> datetime) list \<Rightarrow> datetime \<Rightarrow> datetime list
     \<Rightarrow> datetime list" where
  "find_slots_spec limit duration close busy cursor found =
     (if limit \<le> length found \<or> \<not> cursor + duration \<le> close then found
      else find_slots_spec limit duration close busy (cursor + 30 * 60000000)
             (if list_all (\<lambda>b. \<not> overlaps (cursor, cursor + duration) b) busy
              then found @ [cursor] else found))"
  by pat_completeness auto
termination
  by (relation "measure (\<lambda>(l, dur, close, busy, c, f). nat (close - dur - c + 1))") auto

declare find_slots_spec.simps [simp del]

text \<open>A busy set covers the window when every instant of it lies in some busy interval.\<close>

definition covers :: "(datetime \<times> datetime) list \<Rightarrow> datetime \<Rightarrow> datetime \<Rightarrow> bool" where
  "covers busy opening closing =
     (\<forall>t. opening \<le> t \<and> t < closing \<longrightarrow> (\<exists>(s, e) \<in> set busy. s \<le> t \<and> t < e))"

section \<open>main.py: Python strings\<close>

text \<open>
  A Python \<open>str\<close> is modelled by the list of its characters, each an 8-bit \<open>char\<close>.
  The string methods below are the ASCII behaviour of Python's; what they do to
  characters beyond ASCII (further space characters for \<open>strip\<close>, case mappings for
  \<open>upper\<close> and \<open>lower\<close>, further digits for \<open>int\<close>) is outside the model.
\<close>

text \<open>The characters \<open>str.strip()\<close> removes: codes 9 to 13 and 28 to 32.\<close>

definition is_space :: "char \<Rightarrow> bool" where
  "is_space c = ((9 \<le> (of_char c :: nat) \<and> (of_char c :: nat) \<le> 13)
               \<or> (28 \<le> (of_char c :: nat) \<and> (of_char c :: nat) \<le> 32))"

definition py_strip :: "string \<Rightarrow> string" where
  "py_strip s = rev (dropWhile is_space (rev (dropWhile is_space s)))"

definition upper_char :: "char \<Rightarrow> char" where
  "upper_char c =
     (if 97 \<le> (of_char c :: nat) \<and> (of_char c :: nat) \<le> 122
      then char_of ((of_char c :: nat) - 32) else c)"

definition lower_char :: "char \<Rightarrow> char" where
  "lower_char c =
     (if 65 \<le> (of_char c :: nat) \<and> (of_char c :: nat) \<le> 90
      then char_of ((of_char c :: nat) + 32) else c)"

definition py_upper :: "string \<Rightarrow> string" where
  "py_upper s = map upper_char s"

definition py_lower :: "string \<Rightarrow> string" where
  "py_lower s = map lower_char s"

definition starts_with :: "string \<Rightarrow> string \<Rightarrow> bool" where
  "starts_with sub s = (take (length sub) s = sub)"

text \<open>\<open>sub in s\<close>.\<close>

fun py_in :: "string \<Rightarrow> string \<Rightarrow> bool" where
  "py_in sub [] = (sub = [])"
| "py_in sub (c # cs) = (starts_with sub (c # cs) \<or> py_in sub cs)"

text \<open>\<open>s.find(sub)\<close> and \<open>s.rfind(sub)\<close>: the first and the last index, or -1.\<close>

fun py_find :: "string \<Rightarrow> string \<Rightarrow> int" where
  "py_find sub [] = (if sub = [] then 0 else - 1)"
| "py_find sub (c # cs) =
     (if starts_with sub (c # cs) then 0
      else (let r = py_find sub cs in if r < 0 then - 1 else r + 1))"

fun py_rfind :: "string \<Rightarrow> string \<Rightarrow> int" where
  "py_rfind sub [] = (if sub = [] then 0 else - 1)"
| "py_rfind sub (c # cs) =
     (let r = py_rfind sub cs in
      if 0 \<le> r then r + 1 else if starts_with sub (c # cs) then 0 else - 1)"

text \<open>\<open>s[i:j]\<close>: a negative index counts from the end, and both are clamped.\<close>

definition slice_index :: "string \<Rightarrow> int \<Rightarrow> nat" where
  "slice_index s i =
     (if i < 0 then nat (max 0 (int (length s) + i)) else min (nat i) (length s))"

definition py_slice :: "string \<Rightarrow> int \<Rightarrow> int \<Rightarrow> string" where
  "py_slice s i j = drop (slice_index s i) (take (slice_index s j) s)"

text \<open>
  \<open>s.replace(old, new)\<close>: the occurrences of \<open>old\<close> are replaced from left to right,
  without overlap; an empty \<open>old\<close> matches before every character and at the end.
\<close>

function py_replace :: "string \<Rightarrow> string \<Rightarrow> string \<Rightarrow> string" where
  "py_replace old new s =
     (if old = [] then new @ concat (map (\<lambda>c. c # new) s)
      else if s = [] then []
      else if starts_with old s then new @ py_replace old new (drop (length old) s)
      else hd s # py_replace old new (tl s))"
  by pat_completeness auto
termination
  by (relation "measure (\<lambda>(old, new, s). length s)") auto

declare py_replace.simps [simp del]

text \<open>
  \<open>s.split(sep)\<close> for a non-empty \<open>sep\<close>; \<open>field\<close> holds the characters of the field
  being read. (Python raises \<open>ValueError\<close> for an empty separator; the source passes
  the constant \<open>':'\<close>.)
\<close>

function split_fields :: "string \<Rightarrow> string \<Rightarrow> string \<Rightarrow> string list" where
  "split_fields sep field s =
     (if s = [] then [field]
      else if sep \<noteq> [] \<and> starts_with sep s
           then field # split_fields sep [] (drop (length sep) s)
      else split_fields sep (field @ [hd s]) (tl s))"
  by pat_completeness auto
termination
  by (relation "measure (\<lambda>(sep, field, s). length s)") auto

declare split_fields.simps [simp del]

definition py_split :: "string \<Rightarrow> string \<Rightarrow> string list" where
  "py_split sep s = split_fields sep [] s"

text \<open>
  \<open>int(s)\<close> in base 10: spaces (codes 9 to 13 and 32) around the literal are dropped,
  a sign may lead, and the digits may be grouped by single underscores. A literal of
  more than 4300 digits, leading zeros counted, is refused: the interpreter's default
  limit on the conversion between \<open>int\<close> and \<open>str\<close>. \<open>None\<close> stands for
  \<open>ValueError\<close>.
\<close>

definition int_max_str_digits :: nat where
  "int_max_str_digits = 4300"

definition is_digit :: "char \<Rightarrow> bool" where
  "is_digit c = (48 \<le> (of_char c :: nat) \<and> (of_char c :: nat) \<le> 57)"

definition digit_val :: "char \<Rightarrow> int" where
  "digit_val c = int (of_char c) - 48"

definition is_int_space :: "char \<Rightarrow> bool" where
  "is_int_space c = ((9 \<le> (of_char c :: nat) \<and> (of_char c :: nat) \<le> 13) \<or> c = CHR '' '')"

fun scan_digits :: "bool \<Rightarrow> int \<Rightarrow> string \<Rightarrow> int option" where
  "scan_digits after_digit acc [] = (if after_digit then Some acc else None)"
| "scan_digits after_digit acc (c # cs) =
     (if is_digit c then scan_digits True (acc * 10 + digit_val c) cs
      else if c = CHR ''_'' \<and> after_digit then scan_digits False acc cs
      else None)"

definition py_int :: "string \<Rightarrow> int option" where
  "py_int s =
     (case rev (dropWhile is_int_space (rev (dropWhile is_int_space s))) of
        [] \<Rightarrow> None
      | c # cs \<Rightarrow>
          (let body = (if c = CHR ''-'' \<or> c = CHR ''+'' then cs else c # cs) in
           if int_max_str_digits < length (filter is_digit body) then None
           else if c = CHR ''-'' then map_option uminus (scan_digits False 0 body)
           else scan_digits False 0 body))"

text \<open>
  \<open>str(n)\<close> for \<open>n \<ge> 0\<close>, and the format \<open>{n:02d}\<close>: sign-aware zero padding to width 2.
  Formatting an integer of more than 4300 digits raises \<open>ValueError\<close>, here \<open>None\<close>.
\<close>

definition digit_char :: "nat \<Rightarrow> char" where
  "digit_char n = char_of (48 + n)"

fun str_nat :: "nat \<Rightarrow> string" where
  "str_nat n = (if n < 10 then [digit_char n] else str_nat (n div 10) @ [digit_char (n mod 10)])"

declare str_nat.simps [simp del]

definition decimal_digits :: "int \<Rightarrow> nat" where
  "decimal_digits n = length (str_nat (nat \<bar>n\<bar>))"

definition format_02d :: "int \<Rightarrow> string option" where
  "format_02d n =
     (if int_max_str_digits < decimal_digits n then None
      else Some (if n < 0 then CHR ''-'' # str_nat (nat (- n))
                 else if n < 10 then CHR ''0'' # str_nat (nat n)
                 else str_nat (nat n)))"

section \<open>main.py: the time normalizer\<close>

text \<open>
  \<open>hour, minute = map(int, parts)\<close>: exactly two fields, each accepted by \<open>int\<close>;
  anything else raises, and the bare \<open>except\<close> of the caller makes it \<open>None\<close>.
\<close>

definition unpack_hour_minute :: "string list \<Rightarrow> (int \<times> int) option" where
  "unpack_hour_minute parts =
     (case parts of
        [a, b] \<Rightarrow>
          (case py_int a of
             None \<Rightarrow> None
           | Some hour \<Rightarrow> (case py_int b of None \<Rightarrow> None | Some minute \<Rightarrow> Some (hour, minute)))
      | _ \<Rightarrow> None)"

text \<open>The \<open>return\<close> statement: \<open>f"{date_str} {hour:02d}:{minute:02d}"\<close>.\<close>

definition format_datetime :: "string \<Rightarrow> int \<Rightarrow> int \<Rightarrow> string option" where
  "format_datetime date_str hour minute =
     (case format_02d hour of
        None \<Rightarrow> None
      | Some hh \<Rightarrow>
          (case format_02d minute of
             None \<Rightarrow> None
           | Some mm \<Rightarrow> Some (date_str @ '' '' @ hh @ '':'' @ mm)))"

text \<open>
  The whole function. Every exception raised in the \<open>try\<close> block, by the unpacking, by
  \<open>int\<close> or by the formatting, is caught by the bare \<open>except\<close> and gives \<open>None\<close>.
\<close>

definition parse_time_to_24hour :: "string \<Rightarrow> string \<Rightarrow> string option" where
  "parse_time_to_24hour time_str0 date_str =
     (let time_str = py_upper (py_strip time_str0) in
      case (if py_in ''AM'' time_str \<or> py_in ''PM'' time_str then
              (let time_part = py_strip (py_replace ''PM'' [] (py_replace ''AM'' [] time_str)) in
               case unpack_hour_minute (py_split '':'' time_part) of
                 None \<Rightarrow> None
               | Some (hour, minute) \<Rightarrow>
                   Some (if py_in ''PM'' time_str \<and> hour \<noteq> 12 then hour + 12
                         else if py_in ''AM'' time_str \<and> hour = 12 then 0
                         else hour, minute))
            else unpack_hour_minute (py_split '':'' time_str)) of
        None \<Rightarrow> None
      | Some (hour, minute) \<Rightarrow> format_datetime date_str hour minute)"

text \<open>
  The fields the normalizer hands to \<open>int\<close>: the text trimmed and upper-cased, with
  \<open>AM\<close> and \<open>PM\<close> removed and trimmed again when either occurs, split at \<open>':'\<close>.
  And the hour it formats: 12 is added for \<open>PM\<close> unless the hour is 12, and 12 with
  \<open>AM\<close> becomes 0.
\<close>

definition time_fields :: "string \<Rightarrow> string list" where
  "time_fields time_str0 =
     (let time_str = py_upper (py_strip time_str0) in
      if py_in ''AM'' time_str \<or> py_in ''PM'' time_str
      then py_split '':'' (py_strip (py_replace ''PM'' [] (py_replace ''AM'' [] time_str)))
      else py_split '':'' time_str)"

definition adjusted_hour :: "string \<Rightarrow> int \<Rightarrow> int" where
  "adjusted_hour time_str0 hour =
     (let time_str = py_upper (py_strip time_str0) in
      if py_in ''PM'' time_str \<and> hour \<noteq> 12 then hour + 12
      else if py_in ''AM'' time_str \<and> hour = 12 then 0
      else hour)"

definition two_digits :: "nat \<Rightarrow> string" where
  "two_digits n = [digit_char (n div 10), digit_char (n mod 10)]"

definition digit_string :: "string \<Rightarrow> bool" where
  "digit_string s = (s \<noteq> [] \<and> (\<forall>c \<in> set s. is_digit c))"



section \<open>main.py: decoded JSON\<close>

text \<open>
  What \<open>json.loads\<close> returns. An object keeps its pairs in the order of the text; a
  key that occurs twice has the value of its last occurrence, as in the Python
  \<open>dict\<close>. A number with a fraction or an exponent, and \<open>NaN\<close> and the infinities,
  become a Python \<open>float\<close>, of which the model keeps the literal. A character beyond
  ASCII is kept as the bytes of its UTF-8 encoding.
\<close>

datatype json =
    JNull
  | JBool bool
  | JInt int
  | JFloat string
  | JString string
  | JArray "json list"
  | JObject "(string \<times> json) list"

definition dict_get :: "(string \<times> json) list \<Rightarrow> string \<Rightarrow> json option" where
  "dict_get pairs key = map_of (rev pairs) key"

text \<open>
  \<open>obj[key]\<close> with a string key: \<open>KeyError\<close> when a \<open>dict\<close> lacks the key, and
  \<open>TypeError\<close> when \<open>obj\<close> is a string or a list (their indices must be integers) or is
  not subscriptable at all.
\<close>

definition subscript :: "json \<Rightarrow> string \<Rightarrow> py_exception + json" where
  "subscript obj key =
     (case obj of
        JObject pairs \<Rightarrow> (case dict_get pairs key of None \<Rightarrow> Inl KeyError | Some v \<Rightarrow> Inr v)
      | _ \<Rightarrow> Inl TypeError)"

subsection \<open>The decoder\<close>

text \<open>
  \<open>json.loads\<close> on a \<open>str\<close>, in two passes over the text: the lexical elements first,
  then the nesting. Every decoding failure is a \<open>JSONDecodeError\<close>. The interpreter's
  limits on the depth of nesting and on the number of digits of an integer are outside
  the model.
\<close>

datatype token =
    T_lbrace | T_rbrace | T_lbracket | T_rbracket | T_colon | T_comma
  | T_atom json

definition hex_digit :: "char \<Rightarrow> nat option" where
  "hex_digit c =
     (let n = (of_char c :: nat) in
      if 48 \<le> n \<and> n \<le> 57 then Some (n - 48)
      else if 65 \<le> n \<and> n \<le> 70 then Some (n - 55)
      else if 97 \<le> n \<and> n \<le> 102 then Some (n - 87)
      else None)"

definition hex4 :: "string \<Rightarrow> nat option" where
  "hex4 s =
     (case s of
        [a, b, c, d] \<Rightarrow>
          (case (hex_digit a, hex_digit b, hex_digit c, hex_digit d) of
             (Some x, Some y, Some z, Some w) \<Rightarrow> Some (((x * 16 + y) * 16 + z) * 16 + w)
           | _ \<Rightarrow> None)
      | _ \<Rightarrow> None)"

definition utf8_encode :: "nat \<Rightarrow> string" where
  "utf8_encode cp =
     (if cp < 128 then [char_of cp]
      else if cp < 2048 then [char_of (192 + cp div 64), char_of (128 + cp mod 64)]
      else if cp < 65536 then
        [char_of (224 + cp div 4096), char_of (128 + (cp div 64) mod 64),
         char_of (128 + cp mod 64)]
      else
        [char_of (240 + cp div 262144), char_of (128 + (cp div 4096) mod 64),
         char_of (128 + (cp div 64) mod 64), char_of (128 + cp mod 64)])"

definition unescape :: "char \<Rightarrow> char option" where
  "unescape e =
     (if e = CHR 0x22 then Some (CHR 0x22)
      else if e = CHR 0x5C then Some (CHR 0x5C)
      else if e = CHR ''/'' then Some (CHR ''/'')
      else if e = CHR ''b'' then Some (CHR 0x08)
      else if e = CHR ''f'' then Some (CHR 0x0C)
      else if e = CHR ''n'' then Some (CHR 0x0A)
      else if e = CHR ''r'' then Some (CHR 0x0D)
      else if e = CHR ''t'' then Some (CHR 0x09)
      else None)"

text \<open>
  The low half of a surrogate pair, when the text goes on with a \<open>\uXXXX\<close> escape in
  the range DC00 to DFFF.
\<close>

definition low_surrogate :: "string \<Rightarrow> nat option" where
  "low_surrogate s =
     (if take 2 s = [CHR 0x5C, CHR ''u''] then
        (case hex4 (take 4 (drop 2 s)) of
           None \<Rightarrow> None
         | Some u \<Rightarrow> if 56320 \<le> u \<and> u \<le> 57343 then Some u else None)
      else None)"

text \<open>
  A string, from the character after its opening quote: the decoded content and the
  number of characters read, the closing quote included.
\<close>

fun scanstring :: "string \<Rightarrow> (string \<times> nat) option" where
  "scanstring [] = None"
| "scanstring (c # cs) =
     (if c = CHR 0x22 then Some ([], 1)
      else if c = CHR 0x5C then
        (case cs of
           [] \<Rightarrow> None
         | e # r \<Rightarrow>
             if e = CHR ''u'' then
               (case hex4 (take 4 r) of
                  None \<Rightarrow> None
                | Some u \<Rightarrow>
                    (case (if 55296 \<le> u \<and> u \<le> 56319 then low_surrogate (drop 4 r) else None) of
                       Some lo \<Rightarrow>
                         (case scanstring (drop 10 r) of
                            None \<Rightarrow> None
                          | Some (s, n) \<Rightarrow>
                              Some (utf8_encode (65536 + (u - 55296) * 1024 + (lo - 56320)) @ s,
                                    n + 12))
                     | None \<Rightarrow>
                         (case scanstring (drop 4 r) of
                            None \<Rightarrow> None
                          | Some (s, n) \<Rightarrow> Some (utf8_encode u @ s, n + 6))))
             else
               (case unescape e of
                  None \<Rightarrow> None
                | Some ch \<Rightarrow>
                    (case scanstring r of
                       None \<Rightarrow> None
                     | Some (s, n) \<Rightarrow> Some (ch # s, n + 2))))
      else if (of_char c :: nat) < 32 then None
      else (case scanstring cs of None \<Rightarrow> None | Some (s, n) \<Rightarrow> Some (c # s, n + 1)))"

definition decimal :: "string \<Rightarrow> int" where
  "decimal ds = foldl (\<lambda>acc c. acc * 10 + digit_val c) 0 ds"

text \<open>
  A number, by the pattern \<open>-?(0|[1-9][0-9]*)(\.[0-9]+)?([eE][-+]?[0-9]+)?\<close>: the value
  and the number of characters matched.
\<close>

definition scan_number :: "string \<Rightarrow> (json \<times> nat) option" where
  "scan_number s =
     (let neg = (take 1 s = ''-'');
          s1 = (if neg then drop 1 s else s);
          ip = (if take 1 s1 = ''0'' then ''0'' else takeWhile is_digit s1);
          s2 = drop (length ip) s1;
          fd = (if take 1 s2 = ''.'' then takeWhile is_digit (drop 1 s2) else []);
          frac = (if fd = [] then [] else CHR ''.'' # fd);
          s3 = drop (length frac) s2;
          e1 = (if take 1 s3 = ''e'' \<or> take 1 s3 = ''E'' then drop 1 s3 else []);
          sg = (if take 1 e1 = ''+'' \<or> take 1 e1 = ''-'' then take 1 e1 else []);
          ed = takeWhile is_digit (drop (length sg) e1);
          ex = (if ed = [] then [] else take 1 s3 @ sg @ ed);
          sign = (if neg then ''-'' else [])
      in if ip = [] then None
         else if frac = [] \<and> ex = []
              then Some (JInt (if neg then - decimal ip else decimal ip), length sign + length ip)
         else Some (JFloat (sign @ ip @ frac @ ex),
                    length sign + length ip + length frac + length ex))"

definition is_json_space :: "char \<Rightarrow> bool" where
  "is_json_space c = (c = CHR '' '' \<or> c = CHR 0x09 \<or> c = CHR 0x0A \<or> c = CHR 0x0D)"

text \<open>
  The lexical elements of a text. \<open>skip\<close> is the number of characters still to pass
  over, those of the element just read.
\<close>

fun tokenize :: "nat \<Rightarrow> string \<Rightarrow> token list option" where
  "tokenize skip [] = (if skip = 0 then Some [] else None)"
| "tokenize skip (c # cs) =
     (if 0 < skip then tokenize (skip - 1) cs
      else if is_json_space c then tokenize 0 cs
      else if c = CHR ''{'' then map_option ((#) T_lbrace) (tokenize 0 cs)
      else if c = CHR ''}'' then map_option ((#) T_rbrace) (tokenize 0 cs)
      else if c = CHR ''['' then map_option ((#) T_lbracket) (tokenize 0 cs)
      else if c = CHR '']'' then map_option ((#) T_rbracket) (tokenize 0 cs)
      else if c = CHR '':'' then map_option ((#) T_colon) (tokenize 0 cs)
      else if c = CHR '','' then map_option ((#) T_comma) (tokenize 0 cs)
      else if c = CHR 0x22 then
        (case scanstring cs of
           None \<Rightarrow> None
         | Some (s, n) \<Rightarrow> map_option ((#) (T_atom (JString s))) (tokenize n cs))
      else if starts_with ''null'' (c # cs)
        then map_option ((#) (T_atom JNull)) (tokenize 3 cs)
      else if starts_with ''true'' (c # cs)
        then map_option ((#) (T_atom (JBool True))) (tokenize 3 cs)
      else if starts_with ''false'' (c # cs)
        then map_option ((#) (T_atom (JBool False))) (tokenize 4 cs)
      else if starts_with ''NaN'' (c # cs)
        then map_option ((#) (T_atom (JFloat ''NaN''))) (tokenize 2 cs)
      else if starts_with ''Infinity'' (c # cs)
        then map_option ((#) (T_atom (JFloat ''Infinity''))) (tokenize 7 cs)
      else if starts_with ''-Infinity'' (c # cs)
        then map_option ((#) (T_atom (JFloat ''-Infinity''))) (tokenize 8 cs)
      else
        (case scan_number (c # cs) of
           None \<Rightarrow> None
         | Some (v, n) \<Rightarrow> map_option ((#) (T_atom v)) (tokenize (n - 1) cs)))"

text \<open>
  The nesting: the open containers are a stack of frames, an object frame with the key
  whose value is being read, and the phase says what may come next.
\<close>

datatype frame =
    F_array "json list"
  | F_object "(string \<times> json) list" "string option"

datatype phase =
    Want_value
  | Want_value_or_close
  | Want_key
  | Want_key_or_close
  | Want_colon
  | After_value
  | Done json

fun deliver :: "json \<Rightarrow> frame list \<Rightarrow> (phase \<times> frame list) option" where
  "deliver v [] = Some (Done v, [])"
| "deliver v (F_array xs # st) = Some (After_value, F_array (xs @ [v]) # st)"
| "deliver v (F_object pairs (Some k) # st) =
     Some (After_value, F_object (pairs @ [(k, v)]) None # st)"
| "deliver v (F_object pairs None # st) = None"

fun close_array :: "frame list \<Rightarrow> (phase \<times> frame list) option" where
  "close_array (F_array xs # st) = deliver (JArray xs) st"
| "close_array _ = None"

fun close_object :: "frame list \<Rightarrow> (phase \<times> frame list) option" where
  "close_object (F_object pairs None # st) = deliver (JObject pairs) st"
| "close_object _ = None"

fun open_value :: "token \<Rightarrow> frame list \<Rightarrow> (phase \<times> frame list) option" where
  "open_value (T_atom v) st = deliver v st"
| "open_value T_lbrace st = Some (Want_key_or_close, F_object [] None # st)"
| "open_value T_lbracket st = Some (Want_value_or_close, F_array [] # st)"
| "open_value _ st = None"

fun take_key :: "token \<Rightarrow> frame list \<Rightarrow> (phase \<times> frame list) option" where
  "take_key (T_atom (JString k)) (F_object pairs None # st) =
     Some (Want_colon, F_object pairs (Some k) # st)"
| "take_key _ _ = None"

fun after_comma :: "frame list \<Rightarrow> (phase \<times> frame list) option" where
  "after_comma (F_array xs # st) = Some (Want_value, F_array xs # st)"
| "after_comma (F_object pairs None # st) = Some (Want_key, F_object pairs None # st)"
| "after_comma _ = None"

fun parse_step :: "phase \<Rightarrow> frame list \<Rightarrow> token \<Rightarrow> (phase \<times> frame list) option" where
  "parse_step Want_value st t = open_value t st"
| "parse_step Want_value_or_close st t =
     (if t = T_rbracket then close_array st else open_value t st)"
| "parse_step Want_key st t = take_key t st"
| "parse_step Want_key_or_close st t =
     (if t = T_rbrace then close_object st else take_key t st)"
| "parse_step Want_colon st t = (if t = T_colon then Some (Want_value, st) else None)"
| "parse_step After_value st t =
     (if t = T_comma then after_comma st
      else if t = T_rbracket then close_array st
      else if t = T_rbrace then close_object st
      else None)"
| "parse_step (Done v) st t = None"

fun parse_tokens :: "phase \<Rightarrow> frame list \<Rightarrow> token list \<Rightarrow> json option" where
  "parse_tokens ph st [] = (case ph of Done v \<Rightarrow> Some v | _ \<Rightarrow> None)"
| "parse_tokens ph st (t # ts) =
     (case parse_step ph st t of
        None \<Rightarrow> None
      | Some (ph', st') \<Rightarrow> parse_tokens ph' st' ts)"

definition json_loads :: "string \<Rightarrow> py_exception + json" where
  "json_loads s =
     (case tokenize 0 s of
        None \<Rightarrow> Inl JSONDecodeError
      | Some ts \<Rightarrow>
          (case parse_tokens Want_value [] ts of
             None \<Rightarrow> Inl JSONDecodeError
           | Some v \<Rightarrow> Inr v))"


section \<open>main.py: the dispatch loop\<close>

text \<open>
  A turn of \<open>conversation_history\<close>: its role and the text of its single part.
\<close>

datatype role = User | Model

type_synonym turn = "role \<times> string"

text \<open>
  The two tools as \<open>main\<close> sees them: each returns the JSON text of its result and
  raises nothing, since the body of each is wrapped in \<open>try\<close> with a handler for
  \<open>Exception\<close>. The arguments are the decoded values the model supplied; the last
  argument of \<open>schedule_meeting\<close> is \<open>description\<close>.
\<close>

record tools =
  find_available_slots_tool :: "json \<Rightarrow> json \<Rightarrow> string"
  schedule_meeting_tool :: "json \<Rightarrow> json \<Rightarrow> json \<Rightarrow> json \<Rightarrow> string"

text \<open>
  The language model: the reply of a chat started with a given history, to the last of
  the messages sent in that chat so far. Failures of the model service and of speech
  input and output are outside the model.
\<close>

type_synonym llm = "turn list \<Rightarrow> string list \<Rightarrow> string"

text \<open>
  \<open>f(**function_args)\<close>: the argument must be a mapping, every key must name a
  parameter, and every parameter without a default must be given; otherwise the call
  raises \<open>TypeError\<close> before the body of \<open>f\<close> is entered.
\<close>

definition bind_arguments ::
  "string list \<Rightarrow> string list \<Rightarrow> json \<Rightarrow> py_exception + (string \<Rightarrow> json option)" where
  "bind_arguments required optional function_args =
     (case function_args of
        JObject pairs \<Rightarrow>
          if (\<forall>k \<in> set (map fst pairs). k \<in> set (required @ optional))
             \<and> (\<forall>r \<in> set required. r \<in> set (map fst pairs))
          then Inr (dict_get pairs) else Inl TypeError
      | _ \<Rightarrow> Inl TypeError)"

definition call_find_available_slots :: "tools \<Rightarrow> json \<Rightarrow> py_exception + string" where
  "call_find_available_slots t function_args =
     (case bind_arguments [''duration_minutes'', ''date_str''] [] function_args of
        Inl e \<Rightarrow> Inl e
      | Inr kw \<Rightarrow>
          (case (kw ''duration_minutes'', kw ''date_str'') of
             (Some duration_minutes, Some date_str) \<Rightarrow>
               Inr (find_available_slots_tool t duration_minutes date_str)
           | _ \<Rightarrow> Inl TypeError))"

definition call_schedule_meeting :: "tools \<Rightarrow> json \<Rightarrow> py_exception + string" where
  "call_schedule_meeting t function_args =
     (case bind_arguments [''title'', ''duration_minutes'', ''start_datetime'']
             [''description''] function_args of
        Inl e \<Rightarrow> Inl e
      | Inr kw \<Rightarrow>
          (case (kw ''title'', kw ''duration_minutes'', kw ''start_datetime'') of
             (Some title, Some duration_minutes, Some start_datetime) \<Rightarrow>
               Inr (schedule_meeting_tool t title duration_minutes start_datetime
                      (case kw ''description'' of None \<Rightarrow> JString [] | Some d \<Rightarrow> d))
           | _ \<Rightarrow> Inl TypeError))"

text \<open>\<open>json.dumps({"status": "error", "message": "Unknown tool."})\<close>.\<close>

definition unknown_tool_result :: string where
  "unknown_tool_result =
     [CHR ''{'', CHR 0x22] @ ''status'' @ [CHR 0x22] @ '': '' @ [CHR 0x22] @ ''error''
       @ [CHR 0x22] @ '', '' @ [CHR 0x22] @ ''message'' @ [CHR 0x22] @ '': '' @ [CHR 0x22]
       @ ''Unknown tool.'' @ [CHR 0x22, CHR ''}'']"

text \<open>Step 4 of the loop body: the \<open>if\<close> chain on \<open>function_name\<close>.\<close>

definition execute_tool :: "tools \<Rightarrow> json \<Rightarrow> json \<Rightarrow> py_exception + string" where
  "execute_tool t function_name function_args =
     (if function_name = JString ''find_available_slots''
        then call_find_available_slots t function_args
      else if function_name = JString ''schedule_meeting''
        then call_schedule_meeting t function_args
      else Inr unknown_tool_result)"

text \<open>
  The body of the \<open>try\<close> statement. It returns the history and the texts spoken, or
  the exception that leaves it. \<open>history\<close> already ends with the user's turn, and
  \<open>user_input\<close> is the message the chat was opened with.
\<close>

definition try_tool_call ::
  "tools \<Rightarrow> llm \<Rightarrow> turn list \<Rightarrow> string \<Rightarrow> string
     \<Rightarrow> py_exception + (turn list \<times> string list)" where
  "try_tool_call t model history user_input response_text =
     (if py_in ''tool_call'' response_text \<and> py_in ''{'' response_text then
        (let json_start = py_find ''{'' response_text;
             json_end = py_rfind ''}'' response_text + 1;
             json_str = py_slice response_text json_start json_end
         in case json_loads json_str of
              Inl e \<Rightarrow> Inl e
            | Inr tool_call_data \<Rightarrow>
               (case subscript tool_call_data ''tool_call'' of
                  Inl e \<Rightarrow> Inl e
                | Inr tool_call \<Rightarrow>
                   (case subscript tool_call ''name'' of
                      Inl e \<Rightarrow> Inl e
                    | Inr function_name \<Rightarrow>
                       (case subscript tool_call ''arguments'' of
                          Inl e \<Rightarrow> Inl e
                        | Inr function_args \<Rightarrow>
                           (case execute_tool t function_name function_args of
                              Inl e \<Rightarrow> Inl e
                            | Inr tool_result \<Rightarrow>
                               (let tool_message = ''TOOL_RESPONSE: '' @ tool_result;
                                    history' = history @ [(Model, response_text),
                                                          (User, tool_message)];
                                    final_response = model history [user_input, tool_message]
                                in Inr (history' @ [(Model, final_response)],
                                        [final_response])))))))
      else Inr (history @ [(Model, response_text)], [response_text]))"

text \<open>
  One pass through the body of \<open>while True\<close>. \<open>heard\<close> is what \<open>listen_for_input\<close>
  returned. The result says whether the loop goes on, and gives the history and the
  texts spoken in this pass; \<open>Inl\<close> is an exception that no handler of \<open>main\<close>
  catches, which ends the process.
\<close>

datatype control = Continue | Break

definition exit_words :: "string list" where
  "exit_words = [''exit'', ''quit'', ''goodbye'', ''stop'']"

definition main_loop_body ::
  "tools \<Rightarrow> llm \<Rightarrow> string option \<Rightarrow> turn list
     \<Rightarrow> py_exception + (control \<times> turn list \<times> string list)" where
  "main_loop_body t model heard conversation_history =
     (case heard of
        None \<Rightarrow> Inr (Continue, conversation_history, [])
      | Some user_input \<Rightarrow>
          if user_input = [] then Inr (Continue, conversation_history, [])
          else if py_lower user_input \<in> set exit_words
            then Inr (Break, conversation_history, [''Goodbye! Have a great day!''])
          else
            (let history = conversation_history @ [(User, user_input)];
                 response_text = py_strip (model history [user_input])
             in case try_tool_call t model history user_input response_text of
                  Inr (history', spoken) \<Rightarrow> Inr (Continue, history', spoken)
                | Inl e \<Rightarrow>
                    if e = JSONDecodeError \<or> e = KeyError
                    then Inr (Continue, history @ [(Model, response_text)], [response_text])
                    else Inl e))"



section \<open>Properties of the availability calculator\<close>

lemma is_free_iff:
  "is_free s e busy \<longleftrightarrow> (\<forall>(bs, be) \<in> set busy. \<not> max s bs < min e be)"
  by (induction s e busy rule: is_free.induct) auto

lemma scan_slots_shape:
  "scan_slots d tmax busy s acc = Inr r \<Longrightarrow> r = acc @ accepted_positions d tmax busy s"
proof (induction d tmax busy s acc rule: scan_slots.induct)
  case (1 d tmax busy s acc)
  show ?case
  proof (cases "timedelta_minutes d")
    case (Inl e)
    with "1.prems" show ?thesis by (simp add: scan_slots.simps [of d tmax busy s acc])
  next
    case (Inr delta)
    then have delta: "delta = d * 60000000"
      by (auto simp: timedelta_minutes_def split: if_splits)
    show ?thesis
    proof (cases "datetime_add s delta")
      case (Inl e)
      with "1.prems" Inr show ?thesis by (simp add: scan_slots.simps [of d tmax busy s acc])
    next
      case slot_end: (Inr slot_end)
      then have se: "slot_end = s + d * 60000000"
        using delta by (auto simp: datetime_add_def split: if_splits)
      show ?thesis
      proof (cases "slot_end \<le> tmax")
        case False
        with "1.prems" Inr slot_end se show ?thesis
          by (simp add: scan_slots.simps [of d tmax busy s acc] accepted_positions_def
                cursor_positions.simps [of _ tmax s])
      next
        case True
        show ?thesis
        proof (cases "datetime_add s (30 * 60000000)")
          case (Inl e)
          with "1.prems" Inr slot_end True show ?thesis
            by (simp add: scan_slots.simps [of d tmax busy s acc])
        next
          case nxt: (Inr next_start)
          then have ns: "next_start = s + 30 * 60000000"
            by (auto simp: datetime_add_def split: if_splits)
          let ?acc' = "if is_free s slot_end busy then acc @ [s] else acc"
          from "1.prems" Inr slot_end True nxt
          have "scan_slots d tmax busy next_start ?acc' = Inr r"
            by (simp add: scan_slots.simps [of d tmax busy s acc])
          from "1.IH" [OF Inr slot_end True nxt this]
          have "r = ?acc' @ accepted_positions d tmax busy next_start" .
          moreover have "accepted_positions d tmax busy s =
              (if is_free s slot_end busy then [s] else []) @ accepted_positions d tmax busy next_start"
            using True se ns
            by (simp add: accepted_positions_def cursor_positions.simps [of _ tmax s])
          ultimately show ?thesis by simp
        qed
      qed
    qed
  qed
qed

lemma find_available_slots_Success:
  assumes "find_available_slots (Inr service) d (Some day) = Success slots"
      and "service (combine day 9 0) (combine day 17 0) = Inr busy"
  shows "slots = take 6 (accepted_positions d (combine day 17 0) busy (combine day 9 0))"
proof -
  from assms obtain r where r: "scan_slots d (combine day 17 0) busy (combine day 9 0) [] = Inr r"
    and s: "slots = take 6 r"
    by (auto simp: find_available_slots_def Let_def split: sum.splits if_splits)
  from scan_slots_shape [OF r] s show ?thesis by simp
qed

lemma is_free_overlaps:
  "is_free s e busy = list_all (\<lambda>b. \<not> overlaps (s, e) b) busy"
  by (induction s e busy rule: is_free.induct) (auto simp: overlaps_def)

lemma find_slots_spec_take:
  "length found \<le> limit \<Longrightarrow>
   find_slots_spec limit (d * 60000000) close busy cursor found =
     take limit (found @ accepted_positions d close busy cursor)"
proof (induction limit "d * 60000000" close busy cursor found rule: find_slots_spec.induct)
  case (1 limit close busy cursor found)
  show ?case
  proof (cases "limit \<le> length found \<or> \<not> cursor + d * 60000000 \<le> close")
    case True
    then show ?thesis using "1.prems"
      by (auto simp: find_slots_spec.simps [of limit _ close busy cursor found]
            accepted_positions_def cursor_positions.simps [of _ close cursor])
  next
    case False
    let ?found' = "if list_all (\<lambda>b. \<not> overlaps (cursor, cursor + d * 60000000) b) busy
              then found @ [cursor] else found"
    have len: "length ?found' \<le> limit" using False by auto
    have "find_slots_spec limit (d * 60000000) close busy cursor found =
          find_slots_spec limit (d * 60000000) close busy (cursor + 30 * 60000000) ?found'"
      using False by (subst find_slots_spec.simps) simp
    also have "\<dots> = take limit (?found' @ accepted_positions d close busy (cursor + 30 * 60000000))"
      using "1.hyps" [OF False len] .
    also have "?found' @ accepted_positions d close busy (cursor + 30 * 60000000) =
               found @ accepted_positions d close busy cursor"
      using False
      by (simp add: accepted_positions_def cursor_positions.simps [of _ close cursor] is_free_overlaps)
    finally show ?thesis .
  qed
qed

lemma cursor_positions_ge: "c \<in> set (cursor_positions delta tmax s) \<Longrightarrow> s \<le> c"
proof (induction delta tmax s rule: cursor_positions.induct)
  case (1 delta tmax s)
  then show ?case
    by (subst (asm) (2) cursor_positions.simps) (auto split: if_splits)
qed

lemma cursor_positions_fits: "c \<in> set (cursor_positions delta tmax s) \<Longrightarrow> c + delta \<le> tmax"
proof (induction delta tmax s rule: cursor_positions.induct)
  case (1 delta tmax s)
  then show ?case
    by (subst (asm) (2) cursor_positions.simps) (auto split: if_splits)
qed

lemma cursor_positions_sorted: "sorted_wrt (<) (cursor_positions delta tmax s)"
proof (induction delta tmax s rule: cursor_positions.induct)
  case (1 delta tmax s)
  show ?case
  proof (cases "s + delta \<le> tmax")
    case True
    have "\<forall>c \<in> set (cursor_positions delta tmax (s + 30 * 60000000)). s < c"
      using cursor_positions_ge [of _ delta tmax "s + 30 * 60000000"] by fastforce
    with "1.IH" [OF True] True show ?thesis
      by (subst cursor_positions.simps) simp
  next
    case False
    then show ?thesis by (subst cursor_positions.simps) simp
  qed
qed

lemma accepted_positions_sorted: "sorted_wrt (<) (accepted_positions d tmax busy s)"
  unfolding accepted_positions_def by (rule sorted_wrt_filter [OF cursor_positions_sorted])

lemma scan_slots_in_range:
  assumes "- MAX_DELTA_DAYS \<le> d div 1440" and "d div 1440 \<le> MAX_DELTA_DAYS"
      and "0 \<le> s" and "0 \<le> s + d * 60000000" and "s + d * 60000000 \<le> MAX_DATETIME"
      and "tmax + 30 * 60000000 \<le> MAX_DATETIME"
      and "tmax - d * 60000000 + 30 * 60000000 \<le> MAX_DATETIME"
  shows "scan_slots d tmax busy s acc = Inr (acc @ accepted_positions d tmax busy s)"
  using assms
proof (induction d tmax busy s acc rule: scan_slots.induct)
  case (1 d tmax busy s acc)
  have td: "timedelta_minutes d = Inr (d * 60000000)"
    using "1.prems" by (simp add: timedelta_minutes_def)
  have se: "datetime_add s (d * 60000000) = Inr (s + d * 60000000)"
    using "1.prems" by (simp add: datetime_add_def)
  show ?case
  proof (cases "s + d * 60000000 \<le> tmax")
    case False
    then show ?thesis using td se
      by (simp add: scan_slots.simps [of d tmax busy s acc] accepted_positions_def
            cursor_positions.simps [of _ tmax s])
  next
    case True
    have nx: "datetime_add s (30 * 60000000) = Inr (s + 30 * 60000000)"
      using "1.prems" True by (simp add: datetime_add_def)
    let ?acc' = "if is_free s (s + d * 60000000) busy then acc @ [s] else acc"
    have "scan_slots d tmax busy (s + 30 * 60000000) ?acc' =
          Inr (?acc' @ accepted_positions d tmax busy (s + 30 * 60000000))"
      using "1.prems" True by (intro "1.IH" [OF td se True nx]) auto
    then show ?thesis using td se nx True
      by (simp add: scan_slots.simps [of d tmax busy s acc] accepted_positions_def
            cursor_positions.simps [of _ tmax s])
  qed
qed

text \<open>
  With a valid day, the scan from 09:00 to 17:00 raises nothing as long as
  \<open>09:00 + duration\<close> and \<open>17:30 - duration\<close> are datetimes of the years 1 to 9999.
\<close>

lemma find_available_slots_in_range:
  assumes day: "valid_day day"
      and svc: "service (combine day 9 0) (combine day 17 0) = Inr busy"
      and lo: "0 \<le> combine day 9 0 + d * 60000000"
      and hi: "combine day 9 0 + d * 60000000 \<le> MAX_DATETIME"
      and nx: "combine day 17 30 - d * 60000000 \<le> MAX_DATETIME"
  shows "find_available_slots (Inr service) d (Some day) =
           (let acc = accepted_positions d (combine day 17 0) busy (combine day 9 0)
            in if acc = [] then No_slots else Success (take 6 acc))"
proof -
  have d1: "- MAX_DELTA_DAYS \<le> d div 1440"
    using lo nx day
    unfolding combine_def MAX_DATETIME_def MAX_DELTA_DAYS_def valid_day_def by arith
  have d2: "d div 1440 \<le> MAX_DELTA_DAYS"
    using hi day
    unfolding combine_def MAX_DATETIME_def MAX_DELTA_DAYS_def valid_day_def by arith
  have t0: "0 \<le> combine day 9 0" by (simp add: combine_def)
  have t1: "combine day 17 0 + 30 * 60000000 \<le> MAX_DATETIME"
    using day by (simp add: combine_def MAX_DATETIME_def valid_day_def)
  have t2: "combine day 17 0 - d * 60000000 + 30 * 60000000 \<le> MAX_DATETIME"
    using nx by (simp add: combine_def)
  have "scan_slots d (combine day 17 0) busy (combine day 9 0) [] =
        Inr ([] @ accepted_positions d (combine day 17 0) busy (combine day 9 0))"
    by (rule scan_slots_in_range [OF d1 d2 t0 lo hi t1 t2])
  then show ?thesis using svc
    by (simp add: find_available_slots_def Let_def)
qed

lemma accepted_positions_nonpositive:
  assumes "d \<le> 0"
  shows "accepted_positions d tmax busy s = cursor_positions (d * 60000000) tmax s"
proof -
  have "is_free c (c + d * 60000000) busy" for c
    using assms by (auto simp: is_free_iff)
  then show ?thesis by (simp add: accepted_positions_def)
qed

lemma accepted_positions_covered:
  assumes "0 < d" and "covers busy s tmax"
  shows "accepted_positions d tmax busy s = []"
proof -
  have "\<not> is_free c (c + d * 60000000) busy"
    if c: "c \<in> set (cursor_positions (d * 60000000) tmax s)" for c
  proof -
    from cursor_positions_ge [OF c] cursor_positions_fits [OF c] assms(1)
    have "s \<le> c" and "c < tmax" by auto
    with assms(2) obtain bs be where "(bs, be) \<in> set busy" and "bs \<le> c" and "c < be"
      by (auto simp: covers_def)
    moreover from this assms(1) have "max c bs < min (c + d * 60000000) be"
      by simp
    ultimately show ?thesis
      unfolding is_free_iff by blast
  qed
  then show ?thesis by (simp add: accepted_positions_def filter_empty_conv)
qed

lemma day_arith:
  "combine 739425 9 0 = 63886352400000000" "combine 739425 17 0 = 63886381200000000"
  "combine 739425 17 30 = 63886383000000000" "valid_day 739425"
  by (simp_all add: combine_def valid_day_def)

text \<open>
  C1. Every candidate of a \<open>success\<close> result is conflict-free: the interval from the
  candidate's start to start plus duration overlaps no interval of the busy set, under
  the test \<open>max(a.start, b.start) < min(a.end, b.end)\<close>.
\<close>

theorem success_slots_conflict_free:
  assumes "find_available_slots (Inr service) duration_minutes (Some day) = Success slots"
      and "service (combine day 9 0) (combine day 17 0) = Inr busy"
      and "c \<in> set slots"
      and "(busy_start, busy_end) \<in> set busy"
  shows "\<not> max c busy_start < min (c + duration_minutes * 60000000) busy_end"
proof -
  from find_available_slots_Success [OF assms(1,2)] assms(3)
  have "c \<in> set (accepted_positions duration_minutes (combine day 17 0) busy (combine day 9 0))"
    by (auto dest: in_set_takeD)
  then have "is_free c (c + duration_minutes * 60000000) busy"
    by (simp add: accepted_positions_def)
  with assms(4) show ?thesis
    by (auto simp: is_free_iff)
qed

text \<open>
  Witness for C1: 24 June 2025 with one meeting from 10:00 to 11:00 and a duration of
  60 minutes; the second candidate, 11:00, does not overlap the meeting.
\<close>

theorem success_slots_conflict_free_witness:
  "find_available_slots (Inr (\<lambda>tmin tmax. Inr [(63886356000000000, 63886359600000000)]))
      60 (Some 739425)
     = Success [63886352400000000, 63886359600000000, 63886361400000000,
                63886363200000000, 63886365000000000, 63886366800000000]
   \<and> \<not> max 63886359600000000 63886356000000000
         < min (63886359600000000 + 60 * 60000000) (63886359600000000 :: int)"
proof -
  let ?svc = "\<lambda>(tmin :: int) (tmax :: int).
                (Inr [(63886356000000000, 63886359600000000)] :: py_exception + (int \<times> int) list)"
  have run: "find_available_slots (Inr ?svc) 60 (Some 739425)
     = Success [63886352400000000, 63886359600000000, 63886361400000000,
                63886363200000000, 63886365000000000, 63886366800000000]"
    by (simp add: find_available_slots_def combine_def scan_slots.simps timedelta_minutes_def
          datetime_add_def MAX_DATETIME_def MAX_DELTA_DAYS_def)
  have svc: "?svc (combine 739425 9 0) (combine 739425 17 0)
               = Inr [(63886356000000000, 63886359600000000)]"
    by simp
  from success_slots_conflict_free [OF run svc, of 63886359600000000 63886356000000000 63886359600000000]
  show ?thesis using run by simp
qed

text \<open>
  C4, as the code has it. A busy set covering the whole window gives \<open>no_slots\<close> for
  every duration greater than 0 for which \<open>09:00 + duration\<close> is still a datetime of
  the years 1 to 9999. The claim's "every duration" fails at duration 0.
\<close>

theorem covered_window_no_slots:
  assumes "0 < duration_minutes"
      and "valid_day day"
      and "service (combine day 9 0) (combine day 17 0) = Inr busy"
      and "covers busy (combine day 9 0) (combine day 17 0)"
      and "combine day 9 0 + duration_minutes * 60000000 \<le> MAX_DATETIME"
  shows "find_available_slots (Inr service) duration_minutes (Some day) = No_slots"
proof -
  have lo: "0 \<le> combine day 9 0 + duration_minutes * 60000000"
    using assms(1) by (simp add: combine_def)
  have nx: "combine day 17 30 - duration_minutes * 60000000 \<le> MAX_DATETIME"
    using assms(1,2) by (simp add: combine_def MAX_DATETIME_def valid_day_def)
  show ?thesis
    using find_available_slots_in_range
            [where service = service and busy = busy, OF assms(2,3) lo assms(5) nx]
          accepted_positions_covered [OF assms(1,4)]
    by simp
qed

theorem covered_window_no_slots_witness:
  "find_available_slots (Inr (\<lambda>tmin tmax. Inr [(63886352400000000, 63886381200000000)]))
      30 (Some 739425) = No_slots"
proof -
  let ?svc = "\<lambda>(tmin :: int) (tmax :: int).
                (Inr [(63886352400000000, 63886381200000000)] :: py_exception + (int \<times> int) list)"
  have svc: "?svc (combine 739425 9 0) (combine 739425 17 0)
               = Inr [(63886352400000000, 63886381200000000)]"
    by simp
  have cov: "covers [(63886352400000000, 63886381200000000)] (combine 739425 9 0) (combine 739425 17 0)"
    by (simp add: covers_def day_arith)
  have rng: "combine 739425 9 0 + 30 * 60000000 \<le> MAX_DATETIME"
    by (simp add: day_arith MAX_DATETIME_def)
  have pos: "(0 :: int) < 30" by simp
  show ?thesis
    by (rule covered_window_no_slots [OF pos day_arith(4) svc cov rng])
qed

text \<open>
  Counterexample to C4 as stated: on 24 June 2025 with one meeting from 09:00 to 17:00,
  which covers the window, a duration of 0 minutes gives \<open>success\<close> with six candidates.
\<close>

theorem covered_window_counterexample:
  "covers [(63886352400000000, 63886381200000000)] (combine 739425 9 0) (combine 739425 17 0)
   \<and> find_available_slots (Inr (\<lambda>tmin tmax. Inr [(63886352400000000, 63886381200000000)]))
        0 (Some 739425)
       = Success [63886352400000000, 63886354200000000, 63886356000000000,
                  63886357800000000, 63886359600000000, 63886361400000000]"
  by (simp add: covers_def find_available_slots_def combine_def scan_slots.simps
        timedelta_minutes_def datetime_add_def MAX_DATETIME_def MAX_DELTA_DAYS_def)


text \<open>
  C5, as the code has it. With an empty busy set and a duration of at most 480 minutes
  the result is \<open>success\<close>, with at least one candidate, the first at 09:00, for every
  duration from 1 to 480, and for a duration of 0 or less as long as \<open>09:00 + duration\<close>
  and \<open>17:30 - duration\<close> are datetimes of the years 1 to 9999.
\<close>

theorem empty_calendar_first_slot:
  assumes "duration_minutes \<le> 480"
      and "valid_day day"
      and "service (combine day 9 0) (combine day 17 0) = Inr []"
      and "0 < duration_minutes \<or>
           (0 \<le> combine day 9 0 + duration_minutes * 60000000 \<and>
            combine day 17 30 - duration_minutes * 60000000 \<le> MAX_DATETIME)"
  shows "\<exists>slots. find_available_slots (Inr service) duration_minutes (Some day) = Success slots
           \<and> slots \<noteq> [] \<and> hd slots = combine day 9 0"
proof -
  have fits: "combine day 9 0 + duration_minutes * 60000000 \<le> combine day 17 0"
    using assms(1) by (simp add: combine_def)
  have hi: "combine day 9 0 + duration_minutes * 60000000 \<le> MAX_DATETIME"
    using assms(1,2) by (simp add: combine_def MAX_DATETIME_def valid_day_def)
  have lo: "0 \<le> combine day 9 0 + duration_minutes * 60000000"
    using assms(4) by (auto simp: combine_def)
  have nx: "combine day 17 30 - duration_minutes * 60000000 \<le> MAX_DATETIME"
    using assms(2,4) by (auto simp: combine_def MAX_DATETIME_def valid_day_def)
  obtain rest where acc:
    "accepted_positions duration_minutes (combine day 17 0) [] (combine day 9 0)
       = combine day 9 0 # rest"
    using fits
    by (simp add: accepted_positions_def
          cursor_positions.simps [of _ "combine day 17 0" "combine day 9 0"])
  show ?thesis
    using find_available_slots_in_range
            [where service = service and busy = "[]", OF assms(2,3) lo hi nx] acc
    by simp
qed

theorem empty_calendar_first_slot_witness:
  "\<exists>slots. find_available_slots (Inr (\<lambda>tmin tmax. Inr [])) 480 (Some 739425) = Success slots
     \<and> slots \<noteq> [] \<and> hd slots = 63886352400000000"
proof -
  let ?svc = "\<lambda>(tmin :: int) (tmax :: int). (Inr [] :: py_exception + (int \<times> int) list)"
  have len: "(480 :: int) \<le> 480" by simp
  have svc: "?svc (combine 739425 9 0) (combine 739425 17 0) = Inr []" by simp
  have rng: "(0 :: int) < 480 \<or>
           (0 \<le> combine 739425 9 0 + 480 * 60000000 \<and>
            combine 739425 17 30 - 480 * 60000000 \<le> MAX_DATETIME)"
    by simp
  from empty_calendar_first_slot [where service = ?svc, OF len day_arith(4) svc rng]
  show ?thesis by (simp add: day_arith)
qed

text \<open>
  Counterexample to C5 as stated: on 24 June 2025 with an empty calendar, the duration
  -2000000000000 is at most 480, and \<open>timedelta(minutes=-2000000000000)\<close> raises
  \<open>OverflowError\<close>, which the tool reports as status \<open>error\<close>.
\<close>

theorem empty_calendar_counterexample:
  "(-2000000000000 :: int) \<le> 480
   \<and> find_available_slots (Inr (\<lambda>tmin tmax. Inr [])) (-2000000000000) (Some 739425)
       = Error OverflowError"
  by (simp add: find_available_slots_def combine_def scan_slots.simps
        timedelta_minutes_def datetime_add_def MAX_DATETIME_def MAX_DELTA_DAYS_def)

text \<open>
  C6, as the code has it. The specification's search, which stops as soon as 6
  candidates are collected, returns the first \<open>min(6, n)\<close> of the \<open>n\<close> accepted cursor
  positions, at most 6 and in strictly increasing order. As long as \<open>09:00 + duration\<close>
  and \<open>17:30 - duration\<close> are datetimes of the years 1 to 9999, \<open>find_available_slots\<close>,
  which scans the whole window and truncates afterwards, returns just that: \<open>no_slots\<close>
  when nothing is accepted, \<open>success\<close> with that list otherwise. And whenever it
  returns \<open>success\<close>, its list is that list. Outside that range the full scan raises
  where the early stop would not.
\<close>

theorem first_six_accepted:
  "(find_slots_spec 6 (duration_minutes * 60000000) (combine day 17 0) busy (combine day 9 0) []
      = take (min 6 (length (accepted_positions duration_minutes (combine day 17 0) busy
                               (combine day 9 0))))
             (accepted_positions duration_minutes (combine day 17 0) busy (combine day 9 0))
    \<and> length (find_slots_spec 6 (duration_minutes * 60000000) (combine day 17 0) busy
                (combine day 9 0) []) \<le> 6
    \<and> sorted_wrt (<) (find_slots_spec 6 (duration_minutes * 60000000) (combine day 17 0) busy
                        (combine day 9 0) []))
   \<and> (valid_day day
       \<and> service (combine day 9 0) (combine day 17 0) = Inr busy
       \<and> 0 \<le> combine day 9 0 + duration_minutes * 60000000
       \<and> combine day 9 0 + duration_minutes * 60000000 \<le> MAX_DATETIME
       \<and> combine day 17 30 - duration_minutes * 60000000 \<le> MAX_DATETIME
       \<longrightarrow> find_available_slots (Inr service) duration_minutes (Some day)
             = (if accepted_positions duration_minutes (combine day 17 0) busy (combine day 9 0)
                     = []
                then No_slots
                else Success (find_slots_spec 6 (duration_minutes * 60000000) (combine day 17 0)
                                busy (combine day 9 0) [])))
   \<and> (find_available_slots (Inr service) duration_minutes (Some day) = Success slots
       \<and> service (combine day 9 0) (combine day 17 0) = Inr busy
       \<longrightarrow> slots = find_slots_spec 6 (duration_minutes * 60000000) (combine day 17 0) busy
                      (combine day 9 0) [])"
proof -
  let ?acc = "accepted_positions duration_minutes (combine day 17 0) busy (combine day 9 0)"
  let ?spec = "find_slots_spec 6 (duration_minutes * 60000000) (combine day 17 0) busy
                 (combine day 9 0) []"
  have spec: "?spec = take 6 ?acc"
    by (simp add: find_slots_spec_take)
  have p1: "?spec = take (min 6 (length ?acc)) ?acc"
    by (simp add: spec min_def)
  have p2: "length ?spec \<le> 6"
    by (simp add: spec)
  have p3: "sorted_wrt (<) ?spec"
    unfolding spec by (rule sorted_wrt_take [OF accepted_positions_sorted])
  have p4: "valid_day day
       \<and> service (combine day 9 0) (combine day 17 0) = Inr busy
       \<and> 0 \<le> combine day 9 0 + duration_minutes * 60000000
       \<and> combine day 9 0 + duration_minutes * 60000000 \<le> MAX_DATETIME
       \<and> combine day 17 30 - duration_minutes * 60000000 \<le> MAX_DATETIME
       \<longrightarrow> find_available_slots (Inr service) duration_minutes (Some day)
             = (if ?acc = [] then No_slots else Success ?spec)"
  proof (intro impI, elim conjE)
    assume a: "valid_day day" "service (combine day 9 0) (combine day 17 0) = Inr busy"
      "0 \<le> combine day 9 0 + duration_minutes * 60000000"
      "combine day 9 0 + duration_minutes * 60000000 \<le> MAX_DATETIME"
      "combine day 17 30 - duration_minutes * 60000000 \<le> MAX_DATETIME"
    show "find_available_slots (Inr service) duration_minutes (Some day)
             = (if ?acc = [] then No_slots else Success ?spec)"
      using find_available_slots_in_range [where service = service and busy = busy, OF a]
      by (simp add: spec Let_def)
  qed
  have p5: "find_available_slots (Inr service) duration_minutes (Some day) = Success slots
       \<and> service (combine day 9 0) (combine day 17 0) = Inr busy
       \<longrightarrow> slots = ?spec"
  proof (intro impI, elim conjE)
    assume a: "find_available_slots (Inr service) duration_minutes (Some day) = Success slots"
      "service (combine day 9 0) (combine day 17 0) = Inr busy"
    show "slots = ?spec"
      using find_available_slots_Success [OF a] by (simp add: spec)
  qed
  show ?thesis
    by (rule conjI [OF conjI [OF p1 conjI [OF p2 p3]] conjI [OF p4 p5]])
qed

text \<open>
  Witness for C6: 24 June 2025 with one meeting from 10:00 to 11:00 and a duration of 60
  minutes is in range, and the result is the list of the early-stopping search.
\<close>

theorem first_six_accepted_witness:
  "valid_day 739425
   \<and> 0 \<le> combine 739425 9 0 + 60 * 60000000
   \<and> combine 739425 9 0 + 60 * 60000000 \<le> MAX_DATETIME
   \<and> combine 739425 17 30 - 60 * 60000000 \<le> MAX_DATETIME
   \<and> find_slots_spec 6 (60 * 60000000) (combine 739425 17 0)
        [(63886356000000000, 63886359600000000)] (combine 739425 9 0) []
     = [63886352400000000, 63886359600000000, 63886361400000000,
        63886363200000000, 63886365000000000, 63886366800000000]
   \<and> find_available_slots (Inr (\<lambda>tmin tmax. Inr [(63886356000000000, 63886359600000000)]))
        60 (Some 739425)
     = Success [63886352400000000, 63886359600000000, 63886361400000000,
                63886363200000000, 63886365000000000, 63886366800000000]"
proof -
  let ?busy = "[(63886356000000000, 63886359600000000)] :: (int \<times> int) list"
  let ?svc = "\<lambda>(tmin :: int) (tmax :: int). (Inr ?busy :: py_exception + (int \<times> int) list)"
  let ?slots = "[63886352400000000, 63886359600000000, 63886361400000000,
                 63886363200000000, 63886365000000000, 63886366800000000 :: int]"
  let ?acc = "accepted_positions 60 (combine 739425 17 0) ?busy (combine 739425 9 0)"
  let ?spec = "find_slots_spec 6 (60 * 60000000) (combine 739425 17 0) ?busy
                 (combine 739425 9 0) []"
  note six = first_six_accepted
    [where service = ?svc and day = 739425 and duration_minutes = 60 and busy = ?busy]
  have h1: "valid_day 739425"
    by (simp add: valid_day_def)
  have h2: "0 \<le> combine 739425 9 0 + 60 * 60000000"
    by (simp add: combine_def)
  have h3: "combine 739425 9 0 + 60 * 60000000 \<le> MAX_DATETIME"
    by (simp add: combine_def MAX_DATETIME_def)
  have h4: "combine 739425 17 30 - 60 * 60000000 \<le> MAX_DATETIME"
    by (simp add: combine_def MAX_DATETIME_def)
  have h5: "?svc (combine 739425 9 0) (combine 739425 17 0) = Inr ?busy"
    by simp
  have spec: "?spec = ?slots"
    by (simp add: combine_def find_slots_spec.simps overlaps_def)
  have "?spec = take (min 6 (length ?acc)) ?acc"
    using six [THEN conjunct1, THEN conjunct1] .
  hence ne: "?acc \<noteq> []"
    unfolding spec by auto
  have pre: "valid_day 739425
       \<and> ?svc (combine 739425 9 0) (combine 739425 17 0) = Inr ?busy
       \<and> 0 \<le> combine 739425 9 0 + 60 * 60000000
       \<and> combine 739425 9 0 + 60 * 60000000 \<le> MAX_DATETIME
       \<and> combine 739425 17 30 - 60 * 60000000 \<le> MAX_DATETIME"
    by (rule conjI [OF h1 conjI [OF h5 conjI [OF h2 conjI [OF h3 h4]]]])
  have "find_available_slots (Inr ?svc) 60 (Some 739425)
          = (if ?acc = [] then No_slots else Success ?spec)"
    using six [THEN conjunct2, THEN conjunct1, rule_format, OF pre] .
  hence run: "find_available_slots (Inr ?svc) 60 (Some 739425) = Success ?slots"
    using ne spec by simp
  show ?thesis
    by (rule conjI [OF h1 conjI [OF h2 conjI [OF h3 conjI [OF h4 conjI [OF spec run]]]]])
qed

text \<open>
  Counterexample to C6 as stated: on 31 December 9999 with an empty calendar and a
  duration of -420 minutes every cursor position is accepted. Stopping at the sixth
  gives the six slots from 09:00 to 11:30; the source scans on, and moving the cursor
  past 23:30 raises \<open>OverflowError\<close>, so it returns status \<open>error\<close> and no list.
\<close>

theorem first_six_counterexample:
  "valid_day 3652058
   \<and> find_slots_spec 6 (- 420 * 60000000) (combine 3652058 17 0) [] (combine 3652058 9 0) []
       = [315537843600000000, 315537845400000000, 315537847200000000,
          315537849000000000, 315537850800000000, 315537852600000000]
   \<and> find_available_slots (Inr (\<lambda>tmin tmax. Inr [])) (- 420) (Some 3652058)
       = Error OverflowError"
  by (simp add: valid_day_def find_slots_spec.simps overlaps_def find_available_slots_def
        combine_def scan_slots.simps timedelta_minutes_def datetime_add_def MAX_DATETIME_def
        MAX_DELTA_DAYS_def)

text \<open>
  C10, as the code has it. For a duration of 0 or less, no candidate overlaps anything,
  so every cursor position is accepted whatever the calendar holds, and the result is
  \<open>success\<close> with the six slots 09:00, 09:30, 10:00, 10:30, 11:00 and 11:30, as long as
  \<open>09:00 + duration\<close> and \<open>17:30 - duration\<close> are datetimes of the years 1 to 9999.
\<close>

theorem nonpositive_duration_accepts_all:
  assumes "duration_minutes \<le> 0"
      and "valid_day day"
      and "service (combine day 9 0) (combine day 17 0) = Inr busy"
      and "0 \<le> combine day 9 0 + duration_minutes * 60000000"
      and "combine day 17 30 - duration_minutes * 60000000 \<le> MAX_DATETIME"
  shows "(\<forall>c. is_free c (c + duration_minutes * 60000000) busy)
       \<and> find_available_slots (Inr service) duration_minutes (Some day)
           = Success [combine day 9 0, combine day 9 30, combine day 10 0,
                      combine day 10 30, combine day 11 0, combine day 11 30]"
proof -
  let ?delta = "duration_minutes * 60000000"
  have free: "\<forall>c. is_free c (c + ?delta) busy"
    using assms(1) by (auto simp: is_free_iff)
  have hi: "combine day 9 0 + ?delta \<le> MAX_DATETIME"
    using assms(1,2) by (simp add: combine_def MAX_DATETIME_def valid_day_def)
  have step: "c + ?delta \<le> combine day 17 0 \<Longrightarrow>
      cursor_positions ?delta (combine day 17 0) c
        = c # cursor_positions ?delta (combine day 17 0) (c + 30 * 60000000)" for c
    by (subst cursor_positions.simps) simp
  have s0: "combine day 9 0 + ?delta \<le> combine day 17 0"
   and s1: "combine day 9 0 + 30 * 60000000 + ?delta \<le> combine day 17 0"
   and s2: "combine day 9 0 + 30 * 60000000 + 30 * 60000000 + ?delta \<le> combine day 17 0"
   and s3: "combine day 9 0 + 30 * 60000000 + 30 * 60000000 + 30 * 60000000 + ?delta
              \<le> combine day 17 0"
   and s4: "combine day 9 0 + 30 * 60000000 + 30 * 60000000 + 30 * 60000000 + 30 * 60000000
              + ?delta \<le> combine day 17 0"
   and s5: "combine day 9 0 + 30 * 60000000 + 30 * 60000000 + 30 * 60000000 + 30 * 60000000
              + 30 * 60000000 + ?delta \<le> combine day 17 0"
    using assms(1) by (simp_all add: combine_def)
  obtain rest where
    "cursor_positions ?delta (combine day 17 0) (combine day 9 0)
       = combine day 9 0 # (combine day 9 0 + 30 * 60000000)
         # (combine day 9 0 + 30 * 60000000 + 30 * 60000000)
         # (combine day 9 0 + 30 * 60000000 + 30 * 60000000 + 30 * 60000000)
         # (combine day 9 0 + 30 * 60000000 + 30 * 60000000 + 30 * 60000000 + 30 * 60000000)
         # (combine day 9 0 + 30 * 60000000 + 30 * 60000000 + 30 * 60000000 + 30 * 60000000
              + 30 * 60000000) # rest"
    by (simp only: step [OF s0] step [OF s1] step [OF s2] step [OF s3] step [OF s4] step [OF s5])
  then have "take 6 (accepted_positions duration_minutes (combine day 17 0) busy (combine day 9 0))
      = [combine day 9 0, combine day 9 30, combine day 10 0,
         combine day 10 30, combine day 11 0, combine day 11 30]"
    by (simp add: accepted_positions_nonpositive [OF assms(1)] combine_def)
  moreover have "accepted_positions duration_minutes (combine day 17 0) busy (combine day 9 0) \<noteq> []"
    by (simp add: accepted_positions_nonpositive [OF assms(1)] step [OF s0])
  ultimately show ?thesis
    using find_available_slots_in_range
            [where service = service and busy = busy, OF assms(2,3,4) hi assms(5)] free
    by simp
qed

theorem nonpositive_duration_accepts_all_witness:
  "find_available_slots (Inr (\<lambda>tmin tmax. Inr [(63886352400000000, 63886381200000000)]))
      (-15) (Some 739425)
     = Success [63886352400000000, 63886354200000000, 63886356000000000,
                63886357800000000, 63886359600000000, 63886361400000000]"
proof -
  let ?svc = "\<lambda>(tmin :: int) (tmax :: int).
                (Inr [(63886352400000000, 63886381200000000)] :: py_exception + (int \<times> int) list)"
  have neg: "(-15 :: int) \<le> 0" by simp
  have svc: "?svc (combine 739425 9 0) (combine 739425 17 0)
               = Inr [(63886352400000000, 63886381200000000)]"
    by simp
  have lo: "0 \<le> combine 739425 9 0 + (-15) * 60000000" by (simp add: day_arith)
  have nx: "combine 739425 17 30 - (-15) * 60000000 \<le> MAX_DATETIME"
    by (simp add: day_arith MAX_DATETIME_def)
  from nonpositive_duration_accepts_all [where service = ?svc, OF neg day_arith(4) svc lo nx]
  show ?thesis by (simp add: combine_def)
qed

text \<open>
  Counterexample to C10 as stated: on 24 June 2025, fully booked from 09:00 to 17:00, the
  duration -1100000000 is at most 0, and \<open>09:00 - 1100000000 minutes\<close> lies before
  the year 1, so the first evaluation of the loop condition raises \<open>OverflowError\<close> and
  the tool reports status \<open>error\<close>.
\<close>

theorem nonpositive_duration_counterexample:
  "(-1100000000 :: int) \<le> 0 \<and> valid_day 739425
   \<and> find_available_slots (Inr (\<lambda>tmin tmax. Inr [(63886352400000000, 63886381200000000)]))
        (-1100000000) (Some 739425)
       = Error OverflowError"
  by (simp add: find_available_slots_def combine_def scan_slots.simps valid_day_def
        timedelta_minutes_def datetime_add_def MAX_DATETIME_def MAX_DELTA_DAYS_def)


section \<open>Properties of the string operations\<close>

lemma py_strip_trailing:
  assumes "xs \<noteq> []" and "\<not> is_space (hd xs)" and "\<not> is_space (last xs)"
      and "\<forall>c \<in> set sep. is_space c"
  shows "py_strip (xs @ sep) = xs"
proof -
  from assms(1,2) have "dropWhile is_space (xs @ sep) = xs @ sep"
    by (cases xs) auto
  moreover have "dropWhile is_space (rev sep @ rev xs) = dropWhile is_space (rev xs)"
    using assms(4) by (intro dropWhile_append2) auto
  moreover from assms(1,3) have "dropWhile is_space (rev xs) = rev xs"
    by (cases xs rule: rev_cases) auto
  ultimately show ?thesis by (simp add: py_strip_def)
qed

lemma py_strip_id:
  "s \<noteq> [] \<Longrightarrow> \<not> is_space (hd s) \<Longrightarrow> \<not> is_space (last s) \<Longrightarrow> py_strip s = s"
  using py_strip_trailing [of s "[]"] by simp

lemma py_in_skip:
  "sub \<noteq> [] \<Longrightarrow> hd sub \<notin> set xs \<Longrightarrow> py_in sub (xs @ ys) = py_in sub ys"
proof (induction xs)
  case Nil
  show ?case by simp
next
  case (Cons x xs)
  then have "\<not> starts_with sub (x # xs @ ys)"
    by (cases sub) (auto simp: starts_with_def)
  with Cons show ?case by simp
qed

lemma py_replace_skip:
  "old \<noteq> [] \<Longrightarrow> hd old \<notin> set xs \<Longrightarrow> py_replace old new (xs @ ys) = xs @ py_replace old new ys"
proof (induction xs)
  case Nil
  show ?case by simp
next
  case (Cons x xs)
  then have "\<not> starts_with old (x # xs @ ys)"
    by (cases old) (auto simp: starts_with_def)
  with Cons show ?case
    by (simp add: py_replace.simps [of old new "x # xs @ ys"])
qed

lemma split_fields_skip:
  "sep \<noteq> [] \<Longrightarrow> hd sep \<notin> set xs \<Longrightarrow>
   split_fields sep field (xs @ ys) = split_fields sep (field @ xs) ys"
proof (induction xs arbitrary: field)
  case Nil
  show ?case by simp
next
  case (Cons x xs)
  then have "\<not> starts_with sep (x # xs @ ys)"
    by (cases sep) (auto simp: starts_with_def)
  with Cons show ?case
    by (simp add: split_fields.simps [of sep field "x # xs @ ys"])
qed

lemma py_split_two:
  assumes "CHR '':'' \<notin> set hs" and "CHR '':'' \<notin> set ms"
  shows "py_split '':'' (hs @ '':'' @ ms) = [hs, ms]"
proof -
  have "split_fields '':'' [] (hs @ '':'' @ ms) = split_fields '':'' hs ('':'' @ ms)"
    using split_fields_skip [of "'':''" hs "[]" "'':'' @ ms"] assms(1) by simp
  also have "\<dots> = hs # split_fields '':'' [] ms"
    by (simp add: split_fields.simps [of _ hs] starts_with_def)
  also have "split_fields '':'' [] ms = split_fields '':'' ms []"
    using split_fields_skip [of "'':''" ms "[]" "[]"] assms(2) by simp
  also have "\<dots> = [ms]"
    by (simp add: split_fields.simps [of _ ms])
  finally show ?thesis by (simp add: py_split_def)
qed

lemma digit_not_special:
  assumes "is_digit c"
  shows "c \<noteq> CHR '':''" "c \<noteq> CHR ''A''" "c \<noteq> CHR ''P''" "c \<noteq> CHR '' ''" "c \<noteq> CHR ''-''"
    "c \<noteq> CHR ''+''" "c \<noteq> CHR ''_''" "\<not> is_space c" "\<not> is_int_space c" "upper_char c = c"
  using assms by (auto simp: is_digit_def is_space_def is_int_space_def upper_char_def)

lemma is_digit_digit_char: "n < 10 \<Longrightarrow> is_digit (digit_char n)"
  by (simp add: is_digit_def digit_char_def)

lemma digit_val_digit_char: "n < 10 \<Longrightarrow> digit_val (digit_char n) = int n"
  by (simp add: digit_val_def digit_char_def)

lemma py_int_digits:
  assumes "digit_string s" and "length s \<le> int_max_str_digits"
  shows "py_int s = scan_digits False 0 s"
proof -
  from assms obtain c cs where s: "s = c # cs" by (cases s) (auto simp: digit_string_def)
  with assms have c: "is_digit c" by (auto simp: digit_string_def)
  from s obtain ys y where sy: "s = ys @ [y]" by (metis list.distinct(1) rev_exhaust)
  with assms have y: "is_digit y" by (auto simp: digit_string_def)
  have "filter is_digit s = s"
    using assms(1) by (simp add: digit_string_def)
  with assms(2) s have few: "\<not> int_max_str_digits < length (filter is_digit (c # cs))"
    by simp
  have "dropWhile is_int_space s = s"
    using s c by (simp add: digit_not_special)
  moreover have "dropWhile is_int_space (rev s) = rev s"
    using sy y by (simp add: digit_not_special)
  ultimately have "rev (dropWhile is_int_space (rev (dropWhile is_int_space s))) = c # cs"
    using s by simp
  then show ?thesis
    using s c few by (simp add: py_int_def Let_def digit_not_special)
qed

lemma digit_string_two_digits: "n < 100 \<Longrightarrow> digit_string (two_digits n)"
  by (simp add: digit_string_def two_digits_def is_digit_digit_char)

lemma digit_string_one_digit: "n < 10 \<Longrightarrow> digit_string [digit_char n]"
  by (simp add: digit_string_def is_digit_digit_char)

lemma py_int_two_digits: "n < 100 \<Longrightarrow> py_int (two_digits n) = Some (int n)"
proof -
  assume n: "n < 100"
  have "int (n div 10) * 10 + int (n mod 10) = int n" by presburger
  moreover have "length (two_digits n) \<le> int_max_str_digits"
    by (simp add: two_digits_def int_max_str_digits_def)
  ultimately show ?thesis
    using n by (simp add: py_int_digits digit_string_two_digits)
       (simp add: two_digits_def is_digit_digit_char digit_val_digit_char)
qed

lemma py_int_one_digit: "n < 10 \<Longrightarrow> py_int [digit_char n] = Some (int n)"
  by (simp add: py_int_digits digit_string_one_digit int_max_str_digits_def)
     (simp add: is_digit_digit_char digit_val_digit_char)

lemma digit_char_0: "digit_char 0 = CHR ''0''"
  by code_simp

lemma format_02d_two_digits: "n < 100 \<Longrightarrow> format_02d (int n) = Some (two_digits n)"
proof (cases "n < 10")
  case True
  then show ?thesis
    by (simp add: format_02d_def decimal_digits_def int_max_str_digits_def two_digits_def
          str_nat.simps [of n] digit_char_0)
next
  case False
  assume "n < 100"
  with False have "n div 10 < 10" by simp
  with False show ?thesis
    by (simp add: format_02d_def decimal_digits_def int_max_str_digits_def two_digits_def
          str_nat.simps [of n] str_nat.simps [of "n div 10"])
qed

lemma format_datetime_two_digits:
  "h < 100 \<Longrightarrow> m < 100 \<Longrightarrow>
   format_datetime date (int h) (int m)
     = Some (date @ '' '' @ two_digits h @ '':'' @ two_digits m)"
  by (simp add: format_datetime_def format_02d_two_digits)

section \<open>Properties of the time normalizer\<close>

lemma upper_M_not_space: "upper_char c = CHR ''M'' \<Longrightarrow> \<not> is_space c"
  by (auto simp: upper_char_def is_space_def split: if_splits)

lemma py_upper_suffix:
  assumes "py_upper suf = [a, CHR ''M'']"
  shows "suf \<noteq> []" and "\<not> is_space (last suf)"
proof -
  from assms obtain x y where suf: "suf = [x, y]" and y: "upper_char y = CHR ''M''"
    by (cases suf; cases "tl suf"; cases "tl (tl suf)") (auto simp: py_upper_def)
  show "suf \<noteq> []" by (simp add: suf)
  show "\<not> is_space (last suf)" using upper_M_not_space [OF y] by (simp add: suf)
qed

lemma digit_string_chars:
  assumes "digit_string s"
  shows "CHR ''A'' \<notin> set s" and "CHR ''P'' \<notin> set s" and "CHR '':'' \<notin> set s"
    and "\<not> is_space (hd s)" and "\<not> is_space (last s)"
proof -
  have d: "is_digit c" if "c \<in> set s" for c
    using assms that by (simp add: digit_string_def)
  show "CHR ''A'' \<notin> set s" using d digit_not_special(2) by blast
  show "CHR ''P'' \<notin> set s" using d digit_not_special(3) by blast
  show "CHR '':'' \<notin> set s" using d digit_not_special(1) by blast
  from assms have ne: "s \<noteq> []" by (simp add: digit_string_def)
  then have "hd s \<in> set s" and "last s \<in> set s" by simp_all
  then show "\<not> is_space (hd s)" and "\<not> is_space (last s)"
    using d digit_not_special(8) by blast+
qed

lemma upper_char_plain:
  "is_digit c \<or> c = CHR '':'' \<or> c = CHR '' '' \<Longrightarrow> upper_char c = c"
  by (auto simp: upper_char_def is_digit_def)

lemma plain_upper:
  "\<forall>c \<in> set xs. is_digit c \<or> c = CHR '':'' \<or> c = CHR '' '' \<Longrightarrow> py_upper xs = xs"
  unfolding py_upper_def by (induction xs) (simp_all add: upper_char_plain)

lemma normalize_with_suffix:
  assumes hs: "digit_string hs" and ms: "digit_string ms"
      and h: "py_int hs = Some h" and m: "py_int ms = Some m"
      and sep: "\<forall>c \<in> set sep. c = CHR '' ''"
      and suf: "py_upper suf = ''AM'' \<or> py_upper suf = ''PM''"
  shows "parse_time_to_24hour (hs @ '':'' @ ms @ sep @ suf) date =
           format_datetime date
             (if py_upper suf = ''PM'' then (if h = 12 then 12 else h + 12)
              else (if h = 12 then 0 else h)) m"
proof -
  let ?core = "hs @ '':'' @ ms"
  let ?P = "?core @ sep"
  have plain: "\<forall>c \<in> set ?P. is_digit c \<or> c = CHR '':'' \<or> c = CHR '' ''"
    using hs ms sep unfolding digit_string_def by (simp add: ball_Un)
  have "CHR ''A'' \<noteq> CHR '' ''" and "CHR ''P'' \<noteq> CHR '' ''" by simp_all
  with sep have sepA: "CHR ''A'' \<notin> set sep" and sepP: "CHR ''P'' \<notin> set sep"
    by blast+
  have noA: "CHR ''A'' \<notin> set ?P" and noP: "CHR ''P'' \<notin> set ?P"
    using digit_string_chars(1,2) [OF hs] digit_string_chars(1,2) [OF ms] sepA sepP by simp_all
  have colon: "CHR '':'' \<notin> set hs" "CHR '':'' \<notin> set ms"
    using digit_string_chars(3) [OF hs] digit_string_chars(3) [OF ms] by simp_all
  have hsne: "hs \<noteq> []" and msne: "ms \<noteq> []"
    using hs ms by (simp_all add: digit_string_def)
  have hd_core: "\<not> is_space (hd ?core)"
    using digit_string_chars(4) [OF hs] hsne by simp
  have last_core: "\<not> is_space (last ?core)"
    using digit_string_chars(5) [OF ms] msne by simp
  have sufne: "suf \<noteq> []" and suflast: "\<not> is_space (last suf)"
    using suf py_upper_suffix [of suf] by auto
  have hdP: "hd (?P @ suf) = hd ?core"
    using hsne by simp
  have "py_strip (?P @ suf) = ?P @ suf"
    using sufne suflast hd_core hdP by (intro py_strip_id) auto
  moreover have "py_upper (?P @ suf) = ?P @ py_upper suf"
    using plain_upper [OF plain] by (simp add: py_upper_def)
  ultimately have up: "py_upper (py_strip (hs @ '':'' @ ms @ sep @ suf)) = ?P @ py_upper suf"
    by simp
  have "is_space (CHR '' '')" by (simp add: is_space_def)
  with sep have sepsp: "\<forall>c \<in> set sep. is_space c"
    by metis
  have strip_core: "py_strip ?P = ?core"
    using hd_core last_core sepsp by (intro py_strip_trailing) auto
  have fields: "unpack_hour_minute (py_split '':'' ?core) = Some (h, m)"
    using py_split_two [OF colon] h m by (simp add: unpack_hour_minute_def)
  have repP: "py_replace ''PM'' [] ?P = ?P" and repA: "py_replace ''AM'' [] ?P = ?P"
    using py_replace_skip [of "''PM''" ?P "[]" "[]"] py_replace_skip [of "''AM''" ?P "[]" "[]"]
      noA noP
    by (simp_all add: py_replace.simps [of _ _ "[]"])
  from suf show ?thesis
  proof
    assume am: "py_upper suf = ''AM''"
    have inA: "py_in ''AM'' (?P @ ''AM'')" and inP: "\<not> py_in ''PM'' (?P @ ''AM'')"
      using py_in_skip [of "''AM''" ?P "''AM''"] py_in_skip [of "''PM''" ?P "''AM''"] noA noP
      by (simp_all add: starts_with_def)
    have "py_replace ''AM'' [] (?P @ ''AM'') = ?P"
      using py_replace_skip [of "''AM''" ?P "[]" "''AM''"] noA
      by (simp add: py_replace.simps [of _ _ "''AM''"] py_replace.simps [of _ _ "[]"]
            starts_with_def)
    then have part: "py_strip (py_replace ''PM'' [] (py_replace ''AM'' [] (?P @ ''AM''))) = ?core"
      using repP strip_core by simp
    show ?thesis
      unfolding parse_time_to_24hour_def up am Let_def part
      using inA inP fields by simp
  next
    assume pm: "py_upper suf = ''PM''"
    have inA: "\<not> py_in ''AM'' (?P @ ''PM'')" and inP: "py_in ''PM'' (?P @ ''PM'')"
      using py_in_skip [of "''AM''" ?P "''PM''"] py_in_skip [of "''PM''" ?P "''PM''"] noA noP
      by (simp_all add: starts_with_def)
    have "py_replace ''AM'' [] (?P @ ''PM'') = ?P @ ''PM''"
      using py_replace_skip [of "''AM''" ?P "[]" "''PM''"] noA
      by (simp add: py_replace.simps [of _ _ "''PM''"] py_replace.simps [of _ _ "''M''"]
            py_replace.simps [of _ _ "[]"] starts_with_def)
    moreover have "py_replace ''PM'' [] (?P @ ''PM'') = ?P"
      using py_replace_skip [of "''PM''" ?P "[]" "''PM''"] noP
      by (simp add: py_replace.simps [of _ _ "''PM''"] py_replace.simps [of _ _ "[]"]
            starts_with_def)
    ultimately have part:
      "py_strip (py_replace ''PM'' [] (py_replace ''AM'' [] (?P @ ''PM''))) = ?core"
      using strip_core by simp
    show ?thesis
      unfolding parse_time_to_24hour_def up pm Let_def part
      using inA inP fields by simp
  qed
qed

lemma normalize_bare:
  assumes hs: "digit_string hs" and ms: "digit_string ms"
      and h: "py_int hs = Some h" and m: "py_int ms = Some m"
  shows "parse_time_to_24hour (hs @ '':'' @ ms) date = format_datetime date h m"
proof -
  let ?core = "hs @ '':'' @ ms"
  have plain: "\<forall>c \<in> set ?core. is_digit c \<or> c = CHR '':'' \<or> c = CHR '' ''"
    using hs ms by (auto simp: digit_string_def)
  have noA: "CHR ''A'' \<notin> set ?core" and noP: "CHR ''P'' \<notin> set ?core"
    using digit_string_chars(1,2) [OF hs] digit_string_chars(1,2) [OF ms] by auto
  have colon: "CHR '':'' \<notin> set hs" "CHR '':'' \<notin> set ms"
    using digit_string_chars(3) [OF hs] digit_string_chars(3) [OF ms] by simp_all
  have hsne: "hs \<noteq> []" and msne: "ms \<noteq> []"
    using hs ms by (simp_all add: digit_string_def)
  have hd_core: "\<not> is_space (hd ?core)"
    using digit_string_chars(4) [OF hs] hsne by simp
  have last_core: "\<not> is_space (last ?core)"
    using digit_string_chars(5) [OF ms] msne by simp
  have "py_strip ?core = ?core"
    using hd_core last_core by (intro py_strip_id) auto
  then have up: "py_upper (py_strip (hs @ '':'' @ ms)) = ?core"
    using plain_upper [OF plain] by simp
  have inA: "\<not> py_in ''AM'' ?core" and inP: "\<not> py_in ''PM'' ?core"
    using py_in_skip [of "''AM''" ?core "[]"] py_in_skip [of "''PM''" ?core "[]"] noA noP
    by simp_all
  have fields: "unpack_hour_minute (py_split '':'' ?core) = Some (h, m)"
    using py_split_two [OF colon] h m by (simp add: unpack_hour_minute_def)
  show ?thesis
    unfolding parse_time_to_24hour_def up Let_def
    using inA inP fields by simp
qed









text \<open>The normalizer in terms of the fields and the hour it formats.\<close>

lemma parse_time_alt:
  "parse_time_to_24hour t d =
     (case unpack_hour_minute (time_fields t) of
        None \<Rightarrow> None
      | Some (h, m) \<Rightarrow> format_datetime d (adjusted_hour t h) m)"
  by (simp add: parse_time_to_24hour_def time_fields_def adjusted_hour_def Let_def
        split: option.splits prod.splits)



text \<open>A text without \<open>':'\<close> has a single field.\<close>

lemma upper_char_colon:
  assumes "upper_char c = CHR '':''"
  shows "c = CHR '':''"
proof (rule ccontr)
  assume ne: "c \<noteq> CHR '':''"
  with assms have low: "97 \<le> (of_char c :: nat)" "(of_char c :: nat) \<le> 122"
    and eq: "char_of ((of_char c :: nat) - 32) = CHR '':''"
    by (auto simp: upper_char_def split: if_splits)
  from eq have "(of_char (char_of ((of_char c :: nat) - 32)) :: nat) = of_char (CHR '':'')"
    by simp
  with low show False by simp
qed

lemma py_strip_subset: "set (py_strip s) \<subseteq> set s"
  by (auto simp: py_strip_def dest!: set_dropWhileD)

lemma py_replace_delete_subset: "set (py_replace old [] s) \<subseteq> set s"
proof (induction old "[] :: string" s rule: py_replace.induct)
  case (1 old s)
  show ?case
  proof (cases "old = []")
    case True
    then show ?thesis by (simp add: py_replace.simps [of "[]" "[]" s])
  next
    case ne: False
    show ?thesis
    proof (cases "s = []")
      case True
      with ne show ?thesis by (simp add: py_replace.simps [of old "[]" "[]"])
    next
      case False
      show ?thesis
      proof (cases "starts_with old s")
        case True
        from "1.hyps"(1) [OF ne False True] set_drop_subset [of "length old" s]
        have "set (py_replace old [] (drop (length old) s)) \<subseteq> set s" by blast
        with ne False True show ?thesis by (simp add: py_replace.simps [of old "[]" s])
      next
        case nsw: False
        from "1.hyps"(2) [OF ne False nsw] False
        have "set (py_replace old [] (tl s)) \<subseteq> set s"
          by (cases s) auto
        moreover have "py_replace old [] s = hd s # py_replace old [] (tl s)"
          using ne False nsw by (subst py_replace.simps) simp
        moreover have "hd s \<in> set s" using False by simp
        ultimately show ?thesis by simp
      qed
    qed
  qed
qed

lemma time_fields_no_colon:
  assumes "CHR '':'' \<notin> set t"
  shows "\<exists>f. time_fields t = [f]"
proof -
  let ?u = "py_upper (py_strip t)"
  have u: "CHR '':'' \<notin> set ?u"
  proof
    assume "CHR '':'' \<in> set ?u"
    then obtain x where x: "x \<in> set (py_strip t)" and "upper_char x = CHR '':''"
      by (auto simp: py_upper_def)
    from upper_char_colon [OF this(2)] x py_strip_subset [of t] assms show False by blast
  qed
  have single: "py_split '':'' s = [s]" if "CHR '':'' \<notin> set s" for s
    using split_fields_skip [of "'':''" s "[]" "[]"] that
    by (simp add: py_split_def split_fields.simps [of _ s "[]"])
  let ?p = "py_strip (py_replace ''PM'' [] (py_replace ''AM'' [] ?u))"
  have "set ?p \<subseteq> set ?u"
    using py_strip_subset py_replace_delete_subset by (meson subset_trans)
  with u have "CHR '':'' \<notin> set ?p" by blast
  from single [OF this] single [OF u] show ?thesis
    by (simp add: time_fields_def Let_def)
qed

lemma parse_time_no_colon:
  "CHR '':'' \<notin> set t \<Longrightarrow> parse_time_to_24hour t d = None"
  using time_fields_no_colon [of t]
  by (auto simp: parse_time_alt unpack_hour_minute_def)




text \<open>
  C7, as the code has it. For an hour from 1 to 12 (with or without a leading zero), a
  two-digit minute below 60 and a suffix that is \<open>AM\<close> or \<open>PM\<close> in any case, glued or
  set off by spaces, the normalizer gives hour 0 for 12 AM, hour 12 for 12 PM, adds 12
  exactly when the suffix is \<open>PM\<close> and the hour is not 12, and returns the date, a
  space, and the zero-padded \<open>HH:MM\<close>. A bare 24-hour \<open>HH:MM\<close> is returned zero-padded
  and unchanged. The two examples of the specification hold. The minute is required:
  a text without \<open>':'\<close>, such as an hour followed by the suffix alone, gives \<open>None\<close>.
\<close>

theorem normalizer_well_formed:
  "(\<forall>h m hs sep suf date.
       1 \<le> h \<and> h \<le> 12 \<and> m < 60
       \<and> (hs = two_digits h \<or> (h < 10 \<and> hs = [digit_char h]))
       \<and> (\<forall>c \<in> set sep. c = CHR '' '')
       \<and> (py_upper suf = ''AM'' \<or> py_upper suf = ''PM'')
       \<longrightarrow> parse_time_to_24hour (hs @ '':'' @ two_digits m @ sep @ suf) date
             = Some (date @ '' '' @
                     two_digits (if py_upper suf = ''PM'' then (if h = 12 then 12 else h + 12)
                                 else (if h = 12 then 0 else h))
                     @ '':'' @ two_digits m))
   \<and> (\<forall>h m hs date.
       h \<le> 23 \<and> m < 60 \<and> (hs = two_digits h \<or> (h < 10 \<and> hs = [digit_char h]))
       \<longrightarrow> parse_time_to_24hour (hs @ '':'' @ two_digits m) date
             = Some (date @ '' '' @ two_digits h @ '':'' @ two_digits m))
   \<and> parse_time_to_24hour ''11:30 AM'' ''2025-06-24'' = Some ''2025-06-24 11:30''
   \<and> parse_time_to_24hour ''2:00 PM'' ''2025-06-24'' = Some ''2025-06-24 14:00''
   \<and> (\<forall>t date. CHR '':'' \<notin> set t \<longrightarrow> parse_time_to_24hour t date = None)"
proof -
  have hour: "digit_string hs \<and> py_int hs = Some (int h)"
    if "h < 100" and "hs = two_digits h \<or> (h < 10 \<and> hs = [digit_char h])" for h hs
    using that
    by (auto simp: digit_string_two_digits digit_string_one_digit py_int_two_digits
          py_int_one_digit)
  have twelve: "\<forall>h m hs sep suf date.
       1 \<le> h \<and> h \<le> 12 \<and> m < 60
       \<and> (hs = two_digits h \<or> (h < 10 \<and> hs = [digit_char h]))
       \<and> (\<forall>c \<in> set sep. c = CHR '' '')
       \<and> (py_upper suf = ''AM'' \<or> py_upper suf = ''PM'')
       \<longrightarrow> parse_time_to_24hour (hs @ '':'' @ two_digits m @ sep @ suf) date
             = Some (date @ '' '' @
                     two_digits (if py_upper suf = ''PM'' then (if h = 12 then 12 else h + 12)
                                 else (if h = 12 then 0 else h))
                     @ '':'' @ two_digits m)"
  proof (intro allI impI, elim conjE)
    fix h m :: nat and hs sep suf date :: string
    assume that: "1 \<le> h" "h \<le> 12" "m < 60"
       "hs = two_digits h \<or> (h < 10 \<and> hs = [digit_char h])"
       "\<forall>c \<in> set sep. c = CHR '' ''" "py_upper suf = ''AM'' \<or> py_upper suf = ''PM''"
    from that(2,4) hour [of h hs] have hs: "digit_string hs" "py_int hs = Some (int h)"
      by auto
    from that(3) have ms: "digit_string (two_digits m)" "py_int (two_digits m) = Some (int m)"
      by (simp_all add: digit_string_two_digits py_int_two_digits)
    let ?H = "if py_upper suf = ''PM'' then (if h = 12 then 12 else h + 12)
              else (if h = 12 then 0 else h)"
    have H: "(if py_upper suf = ''PM'' then (if int h = 12 then 12 else int h + 12)
              else (if int h = 12 then 0 else int h)) = int ?H"
      by simp
    have "?H < 100" using that(2) by simp
    then have fmt: "format_datetime date (int ?H) (int m)
                      = Some (date @ '' '' @ two_digits ?H @ '':'' @ two_digits m)"
      using that(3) by (intro format_datetime_two_digits) simp_all
    show "parse_time_to_24hour (hs @ '':'' @ two_digits m @ sep @ suf) date
             = Some (date @ '' '' @ two_digits ?H @ '':'' @ two_digits m)"
      unfolding normalize_with_suffix [OF hs(1) ms(1) hs(2) ms(2) that(5,6)] H fmt ..
  qed
  have bare: "\<forall>h m hs date.
       h \<le> 23 \<and> m < 60 \<and> (hs = two_digits h \<or> (h < 10 \<and> hs = [digit_char h]))
       \<longrightarrow> parse_time_to_24hour (hs @ '':'' @ two_digits m) date
             = Some (date @ '' '' @ two_digits h @ '':'' @ two_digits m)"
  proof (intro allI impI, elim conjE)
    fix h m :: nat and hs date :: string
    assume that: "h \<le> 23" "m < 60" "hs = two_digits h \<or> (h < 10 \<and> hs = [digit_char h])"
    from that(1,3) hour [of h hs] have hs: "digit_string hs" "py_int hs = Some (int h)"
      by auto
    from that(2) have ms: "digit_string (two_digits m)" "py_int (two_digits m) = Some (int m)"
      by (simp_all add: digit_string_two_digits py_int_two_digits)
    have fmt: "format_datetime date (int h) (int m)
                 = Some (date @ '' '' @ two_digits h @ '':'' @ two_digits m)"
      using that(1,2) by (intro format_datetime_two_digits) simp_all
    show "parse_time_to_24hour (hs @ '':'' @ two_digits m) date
             = Some (date @ '' '' @ two_digits h @ '':'' @ two_digits m)"
      unfolding normalize_bare [OF hs(1) ms(1) hs(2) ms(2)] fmt ..
  qed
  have e1: "parse_time_to_24hour ''11:30 AM'' ''2025-06-24'' = Some ''2025-06-24 11:30''"
    by code_simp
  have e2: "parse_time_to_24hour ''2:00 PM'' ''2025-06-24'' = Some ''2025-06-24 14:00''"
    by code_simp
  have nc: "\<forall>t date. CHR '':'' \<notin> set t \<longrightarrow> parse_time_to_24hour t date = None"
    by (simp add: parse_time_no_colon)
  show ?thesis
    by (rule conjI [OF twelve conjI [OF bare conjI [OF e1 conjI [OF e2 nc]]]])
qed

text \<open>Witness for C7: five minutes past midnight, written \<open>12:05am\<close>.\<close>

theorem normalizer_well_formed_witness:
  "parse_time_to_24hour ''12:05am'' ''2025-06-24'' = Some ''2025-06-24 00:05''"
proof -
  have a: "two_digits 12 = ''12''" "two_digits 5 = ''05''" "two_digits 0 = ''00''"
      "py_upper ''am'' = ''AM''"
    by code_simp+
  have pre: "1 \<le> (12 :: nat) \<and> (12 :: nat) \<le> 12 \<and> (5 :: nat) < 60
       \<and> (''12'' = two_digits 12 \<or> ((12 :: nat) < 10 \<and> ''12'' = [digit_char 12]))
       \<and> (\<forall>c \<in> set ''''. c = CHR '' '')
       \<and> (py_upper ''am'' = ''AM'' \<or> py_upper ''am'' = ''PM'')"
    by (simp add: a)
  from normalizer_well_formed [THEN conjunct1, rule_format, OF pre, of "''2025-06-24''"]
  show ?thesis by (simp add: a)
qed

text \<open>
  Counterexample to C7 as stated: the 12-hour expressions \<open>12 AM\<close>, \<open>12 PM\<close>, \<open>2 PM\<close>
  and \<open>2pm\<close>, an hour and a suffix without minutes, all give \<open>None\<close>; \<open>12 AM\<close> is not
  mapped to hour 0.
\<close>

theorem normalizer_hour_only_counterexample:
  "parse_time_to_24hour ''12 AM'' ''2025-06-24'' = None
   \<and> parse_time_to_24hour ''12 PM'' ''2025-06-24'' = None
   \<and> parse_time_to_24hour ''2 PM'' ''2025-06-24'' = None
   \<and> parse_time_to_24hour ''2pm'' ''2025-06-24'' = None"
  by code_simp

section \<open>Properties of the dispatch loop\<close>















text \<open>
  C2, at a failing input. The model names \<open>find_available_slots\<close> with the argument
  names \<open>duration\<close> and \<open>date\<close>. The call raises \<open>TypeError\<close> before the tool's own
  \<open>try\<close> is entered, the handler of \<open>main\<close> catches only \<open>JSONDecodeError\<close> and
  \<open>KeyError\<close>, and the exception leaves the loop, whatever the tools and the history.
\<close>

theorem mismatched_argument_names_escape:
  \<open>main_loop_body t
      (\<lambda>h ms. ''{"tool_call": {"name": "find_available_slots", "arguments": {"duration": 30, "date": "2025-06-24"}}}'')
      (Some ''book thirty minutes tomorrow'') hist
     = Inl TypeError\<close>
  by code_simp

text \<open>
  C8, at a failing input. The decoded object has a \<open>tool_call\<close> that is a string, so
  it has no \<open>name\<close> and no \<open>arguments\<close>; subscripting the string raises \<open>TypeError\<close>,
  which the handler of \<open>main\<close> does not catch: the output is not treated as plain
  text, the exception leaves the loop.
\<close>

theorem non_object_tool_call_escape:
  \<open>main_loop_body t
      (\<lambda>h ms. ''Sure! {"tool_call": "find_available_slots"}'')
      (Some ''book thirty minutes tomorrow'') hist
     = Inl TypeError\<close>
  by code_simp

text \<open>
  The rest of C8 and of C2 holds: on the example of the specification the tool is called
  with the decoded arguments; a payload that does not decode, or lacks a key, and prose
  without braces are answered as plain text; an unknown tool name gives the generic
  error result.
\<close>

lemma tool_call_example:
  \<open>try_tool_call t model hist user_input
      ''Sure! {"tool_call": {"name": "find_available_slots", "arguments": {"duration_minutes": 30, "date_str": "2025-06-24"}}}''
     = Inr ((hist @
            [(Model, ''Sure! {"tool_call": {"name": "find_available_slots", "arguments": {"duration_minutes": 30, "date_str": "2025-06-24"}}}''),
             (User, ''TOOL_RESPONSE: '' @ find_available_slots_tool t (JInt 30) (JString ''2025-06-24''))]) @
            [(Model, model hist [user_input, ''TOOL_RESPONSE: '' @ find_available_slots_tool t (JInt 30) (JString ''2025-06-24'')])],
            [model hist [user_input, ''TOOL_RESPONSE: '' @ find_available_slots_tool t (JInt 30) (JString ''2025-06-24'')]])\<close>
  by code_simp

lemma no_marker_plain_text:
  "\<not> (py_in ''tool_call'' response_text \<and> py_in ''{'' response_text) \<Longrightarrow>
   try_tool_call t model hist user_input response_text
     = Inr (hist @ [(Model, response_text)], [response_text])"
  by (auto simp: try_tool_call_def)

lemma undecodable_plain_text:
  \<open>main_loop_body t (\<lambda>h ms. ''I will make a tool_call {"tool_call": {"name": "x"}}'')
      (Some ''book it'') hist
     = Inr (Continue,
            (hist @ [(User, ''book it'')])
              @ [(Model, ''I will make a tool_call {"tool_call": {"name": "x"}}'')],
            [''I will make a tool_call {"tool_call": {"name": "x"}}''])
   \<and> main_loop_body t (\<lambda>h ms. ''a tool_call for you: {oops'') (Some ''book it'') hist
     = Inr (Continue, (hist @ [(User, ''book it'')]) @ [(Model, ''a tool_call for you: {oops'')],
            [''a tool_call for you: {oops''])\<close>
  by code_simp

lemma unknown_tool_error_result:
  "function_name \<noteq> JString ''find_available_slots'' \<Longrightarrow>
   function_name \<noteq> JString ''schedule_meeting'' \<Longrightarrow>
   execute_tool t function_name function_args = Inr unknown_tool_result"
  by (simp add: execute_tool_def)


end
